theory Spec2Isabelle
  imports Main "HOL-Library.Multiset"
begin

section \<open>Data model (types.ts)\<close>

text \<open>
  \<^verbatim>\<open>GateType\<close> is a closed string enum; \<^verbatim>\<open>PlayerId\<close> is \<^verbatim>\<open>'P1' | 'P2'\<close>.
  The winner state is \<^verbatim>\<open>PlayerId | 'DRAW' | null\<close>: an optional \<open>Outcome\<close>.
\<close>

datatype GateType = AND | OR | XOR | NAND | NOR

datatype PlayerId = P1 | P2

datatype Outcome = Won PlayerId | DRAW

text \<open>The signal type \<^verbatim>\<open>0 | 1\<close>; \<^verbatim>\<open>0 | 1 | null\<close> is \<open>Bit option\<close>.\<close>

datatype Bit = Zero | One

text \<open>
  What a variable of type \<^verbatim>\<open>0 | 1 | null\<close> can hold at run time in \<^verbatim>\<open>evaluateBoard\<close>:
  a bit, \<^verbatim>\<open>null\<close> (the value of a child without output), or \<^verbatim>\<open>undefined\<close>
  (a read of \<^verbatim>\<open>inputs\<close> past its end, which does not raise in JavaScript).
\<close>

datatype Operand = Undefined | Null | Num Bit

record BoardNode =
  node_id :: nat
  gate :: "GateType option"
  node_value :: "Bit option"

datatype JSError = TypeError | Error string

definition INITIAL_INPUTS_COUNT :: nat where
  "INITIAL_INPUTS_COUNT = 8"

definition BOARD_SIZE :: nat where
  "BOARD_SIZE = 7"

section \<open>The circuit evaluator (logicService)\<close>

text \<open>JavaScript truthiness of an operand: only the number 1 is truthy.\<close>

fun truthy :: "Operand \<Rightarrow> bool" where
  "truthy (Num One) = True"
| "truthy (Num Zero) = False"
| "truthy Null = False"
| "truthy Undefined = False"

definition toBit :: "bool \<Rightarrow> Bit" where
  "toBit c = (if c then One else Zero)"

text \<open>
  \<^verbatim>\<open>evaluateGate\<close>: \<^verbatim>\<open>(a && b) ? 1 : 0\<close> and so on; \<^verbatim>\<open>a !== b\<close> is strict inequality.
  The \<^verbatim>\<open>default: return 0\<close> branch has no counterpart: the enum has five members.
\<close>

fun evaluateGate :: "GateType \<Rightarrow> Operand \<Rightarrow> Operand \<Rightarrow> Bit" where
  "evaluateGate AND a b = toBit (truthy a \<and> truthy b)"
| "evaluateGate OR a b = toBit (truthy a \<or> truthy b)"
| "evaluateGate XOR a b = toBit (a \<noteq> b)"
| "evaluateGate NAND a b = toBit (\<not> (truthy a \<and> truthy b))"
| "evaluateGate NOR a b = toBit (\<not> (truthy a \<or> truthy b))"

text \<open>\<^verbatim>\<open>inputs[k]\<close>: the bit at position \<open>k\<close>, or \<^verbatim>\<open>undefined\<close> past the end.\<close>

definition inputAt :: "Bit list \<Rightarrow> nat \<Rightarrow> Operand" where
  "inputAt inputs k = (if k < length inputs then Num (inputs ! k) else Undefined)"

text \<open>\<^verbatim>\<open>newNodes[j].value\<close> as an operand: \<^verbatim>\<open>null\<close> or a bit.\<close>

definition valueOf :: "BoardNode \<Rightarrow> Operand" where
  "valueOf n = (case node_value n of None \<Rightarrow> Null | Some b \<Rightarrow> Num b)"

text \<open>
  One iteration of the loop \<^verbatim>\<open>for (let i = BOARD_SIZE - 1; i >= 0; i--)\<close> of
  \<^verbatim>\<open>evaluateBoard\<close>, at index \<open>i\<close>, on the working copy \<open>newNodes\<close>.
\<close>

definition evalSlot :: "Bit list \<Rightarrow> nat \<Rightarrow> BoardNode list \<Rightarrow> BoardNode list" where
  "evalSlot inputs i newNodes =
     (let node = newNodes ! i in
      case gate node of
        None \<Rightarrow> newNodes[i := node\<lparr>node_value := None\<rparr>]
      | Some g \<Rightarrow>
          (let valA = (if i \<ge> 3 then inputAt inputs ((i - 3) * 2)
                       else valueOf (newNodes ! (i * 2 + 1)));
               valB = (if i \<ge> 3 then inputAt inputs ((i - 3) * 2 + 1)
                       else valueOf (newNodes ! (i * 2 + 2)))
           in if valA \<noteq> Null \<and> valB \<noteq> Null
              then newNodes[i := node\<lparr>node_value := Some (evaluateGate g valA valB)\<rparr>]
              else newNodes[i := node\<lparr>node_value := None\<rparr>]))"

text \<open>The loop itself: \<open>evalLoop k\<close> runs the iterations \<open>i = k - 1\<close> down to \<open>0\<close>.\<close>

fun evalLoop :: "nat \<Rightarrow> Bit list \<Rightarrow> BoardNode list \<Rightarrow> BoardNode list" where
  "evalLoop 0 inputs newNodes = newNodes"
| "evalLoop (Suc i) inputs newNodes = evalLoop i inputs (evalSlot inputs i newNodes)"

text \<open>
  \<^verbatim>\<open>evaluateBoard\<close>. On an array with fewer than seven nodes the first iteration reads
  \<^verbatim>\<open>newNodes[6]\<close>, which is \<^verbatim>\<open>undefined\<close>, and \<^verbatim>\<open>node.gate\<close> raises a TypeError.
  Nodes past index 6 are copied unchanged.
\<close>

definition evaluateBoard :: "BoardNode list \<Rightarrow> Bit list \<Rightarrow> JSError + BoardNode list" where
  "evaluateBoard nodes inputs =
     (if length nodes < BOARD_SIZE then Inl TypeError
      else Inr (evalLoop BOARD_SIZE inputs nodes))"

text \<open>
  \<^verbatim>\<open>checkWinCondition\<close>. \<^verbatim>\<open>[].every(...)\<close> is true, and \<^verbatim>\<open>nodes[0].value\<close> then raises
  on the empty array.
\<close>

definition checkWinCondition :: "BoardNode list \<Rightarrow> JSError + Outcome option" where
  "checkWinCondition nodes =
     (let isFull = list_all (\<lambda>n. gate n \<noteq> None) nodes in
      if isFull then
        (case nodes of
           [] \<Rightarrow> Inl TypeError
         | n0 # _ \<Rightarrow>
             (case node_value n0 of
                Some One \<Rightarrow> Inr (Some (Won P1))
              | Some Zero \<Rightarrow> Inr (Some (Won P2))
              | None \<Rightarrow> Inr (Some DRAW)))
      else Inr None)"

section \<open>The application state and its handlers (App.tsx)\<close>

text \<open>
  The React state of \<^verbatim>\<open>App\<close> that the game logic reads and writes. The commentary
  text and the gate images are presentation only and are left out. \<^verbatim>\<open>players\<close> is a
  \<^verbatim>\<open>Record<PlayerId, Player>\<close>: one \<open>Player\<close> per id.
\<close>

record Player =
  player_id :: PlayerId
  player_name :: string
  targetValue :: Bit
  color :: string
  hand :: "GateType list"

record Players =
  playerP1 :: Player
  playerP2 :: Player

record AppState =
  gameStarted :: bool
  isAI :: bool
  board :: "BoardNode list"
  inputs :: "Bit list"
  players :: Players
  turn :: PlayerId
  winner :: "Outcome option"
  selectedCardIndex :: "nat option"
  isThinking :: bool

text \<open>\<^verbatim>\<open>players[id]\<close> and \<^verbatim>\<open>{ ...prev, [id]: { ...prev[id], hand: newHand } }\<close>.\<close>

fun getPlayer :: "Players \<Rightarrow> PlayerId \<Rightarrow> Player" where
  "getPlayer ps P1 = playerP1 ps"
| "getPlayer ps P2 = playerP2 ps"

fun setHand :: "Players \<Rightarrow> PlayerId \<Rightarrow> GateType list \<Rightarrow> Players" where
  "setHand ps P1 h = ps\<lparr>playerP1 := (playerP1 ps)\<lparr>hand := h\<rparr>\<rparr>"
| "setHand ps P2 h = ps\<lparr>playerP2 := (playerP2 ps)\<lparr>hand := h\<rparr>\<rparr>"

definition INITIAL_HAND_SIZE :: nat where
  "INITIAL_HAND_SIZE = 3"

text \<open>
  \<^verbatim>\<open>getRandomGate\<close> draws from \<^verbatim>\<open>Math.random\<close>. The model takes the sequence of gates
  that the draws of one call return as a parameter \<open>rnd\<close>: the \<open>k\<close>-th draw is \<open>rnd k\<close>.
\<close>

definition createPlayer :: "PlayerId \<Rightarrow> bool \<Rightarrow> (nat \<Rightarrow> GateType) \<Rightarrow> Player" where
  "createPlayer pid ai rnd =
     \<lparr>player_id = pid,
      player_name = (if ai then ''Cortex (AI)'' else (if pid = P1 then ''Player 1'' else ''Player 2'')),
      targetValue = (if pid = P1 then One else Zero),
      color = (if pid = P1 then ''blue'' else ''red''),
      hand = map rnd [0..<INITIAL_HAND_SIZE]\<rparr>"

definition INITIAL_BOARD :: "BoardNode list" where
  "INITIAL_BOARD = map (\<lambda>i. \<lparr>node_id = i, gate = None, node_value = None\<rparr>) [0..<BOARD_SIZE]"

text \<open>
  \<^verbatim>\<open>startGame\<close>; \<open>newInputs\<close> is what \<^verbatim>\<open>generateInputs()\<close> returned, \<open>rnd1\<close> and \<open>rnd2\<close>
  are the draws for the two hands.
\<close>

definition startGame ::
  "bool \<Rightarrow> Bit list \<Rightarrow> (nat \<Rightarrow> GateType) \<Rightarrow> (nat \<Rightarrow> GateType) \<Rightarrow> AppState \<Rightarrow> AppState" where
  "startGame aiMode newInputs rnd1 rnd2 st =
     st\<lparr>isAI := aiMode,
        board := INITIAL_BOARD,
        inputs := newInputs,
        players := \<lparr>playerP1 = createPlayer P1 False rnd1, playerP2 = createPlayer P2 aiMode rnd2\<rparr>,
        turn := P1,
        winner := None,
        gameStarted := True,
        selectedCardIndex := None\<rparr>"

subsection \<open>Array reads and writes\<close>

text \<open>
  \<^verbatim>\<open>board[slotId]\<close> for a number \<open>slotId\<close>: the node, or \<^verbatim>\<open>undefined\<close> (\<open>None\<close>) when
  the number is not an index of the array. Reading \<^verbatim>\<open>.gate\<close> of \<^verbatim>\<open>undefined\<close> raises.
\<close>

definition nodeAt :: "BoardNode list \<Rightarrow> int \<Rightarrow> BoardNode option" where
  "nodeAt b i = (if 0 \<le> i \<and> nat i < length b then Some (b ! nat i) else None)"

text \<open>\<^verbatim>\<open>hand[k]\<close>: the card, or \<^verbatim>\<open>undefined\<close> (\<open>None\<close>) past the end.\<close>

definition cardAt :: "GateType list \<Rightarrow> nat \<Rightarrow> GateType option" where
  "cardAt h k = (if k < length h then Some (h ! k) else None)"

text \<open>
  The property key that \<^verbatim>\<open>executeMove\<close> receives as \<^verbatim>\<open>slotId\<close>: a number, or (from the
  fallback branch of \<^verbatim>\<open>performAIMove\<close>, which passes \<^verbatim>\<open>players['P2'].hand[handIdx]\<close>
  in that position) the name of a gate.
\<close>

datatype SlotKey = Index int | Name GateType

text \<open>
  \<^verbatim>\<open>newBoard[slotId] = { ...newBoard[slotId], gate }\<close> on the copy of the board.
  An index of the array replaces that node's gate. A key that is not an array index
  (a gate name, a negative number) sets a named property and leaves every element as it
  was. An index past the end would grow the array with holes: no caller passes one
  (each reads \<^verbatim>\<open>board[slotId].gate\<close> first, which raises there), the result is not a
  list of nodes, and the model gives \<open>None\<close>.
\<close>

definition setGate :: "BoardNode list \<Rightarrow> SlotKey \<Rightarrow> GateType \<Rightarrow> BoardNode list option" where
  "setGate b k g =
     (case k of
        Name _ \<Rightarrow> Some b
      | Index i \<Rightarrow>
          if i < 0 then Some b
          else if nat i < length b then Some (b[nat i := (b ! nat i)\<lparr>gate := Some g\<rparr>])
          else None)"

text \<open>\<^verbatim>\<open>newHand.splice(handIndexToRemove, 1)\<close>: nothing is removed past the end.\<close>

definition splice1 :: "'a list \<Rightarrow> nat \<Rightarrow> 'a list" where
  "splice1 xs i = take i xs @ drop (Suc i) xs"

text \<open>
  \<^verbatim>\<open>while (newHand.length < 3) newHand.push(getRandomGate())\<close>, with \<open>k\<close> the number
  of draws made so far.
\<close>

function drawUp :: "GateType list \<Rightarrow> (nat \<Rightarrow> GateType) \<Rightarrow> nat \<Rightarrow> GateType list" where
  "drawUp newHand rnd k =
     (if length newHand < 3 then drawUp (newHand @ [rnd k]) rnd (Suc k) else newHand)"
  by pat_completeness auto
termination
  by (relation "measure (\<lambda>(newHand, rnd, k). 3 - length newHand)") auto

declare drawUp.simps [simp del]

subsection \<open>executeMove\<close>

datatype ActionType = PLACE | DISCARD

text \<open>
  How a handler ends: it returns, leaving the state \<open>s\<close>; or an exception escapes it,
  with \<open>s\<close> the state made of the updates issued before the exception; or it has
  grown the board array (see \<open>setGate\<close>), which the state type does not represent.
\<close>

datatype Completion = Returned AppState | Threw JSError AppState | OutOfModel

fun otherPlayer :: "PlayerId \<Rightarrow> PlayerId" where
  "otherPlayer P1 = P2"
| "otherPlayer P2 = P1"

text \<open>The common end-of-turn logic of \<^verbatim>\<open>executeMove\<close>.\<close>

definition endOfTurn :: "PlayerId \<Rightarrow> AppState \<Rightarrow> AppState" where
  "endOfTurn playerId st =
     st\<lparr>selectedCardIndex := None, turn := otherPlayer playerId, isThinking := False\<rparr>"

text \<open>
  \<^verbatim>\<open>executeMove(actionType, playerId, slotId?, gate?, handIndexToRemove?)\<close>.
  Optional arguments are \<open>None\<close> when omitted or \<^verbatim>\<open>undefined\<close>.
  The first statement after \<^verbatim>\<open>setIsThinking(true)\<close> reads \<^verbatim>\<open>board[0].value\<close>, which
  raises on an empty board. The function checks neither the winner, nor that the slot
  is empty, nor that the gate is in the hand.
\<close>

definition executeMove ::
  "ActionType \<Rightarrow> PlayerId \<Rightarrow> SlotKey option \<Rightarrow> GateType option \<Rightarrow> nat option
     \<Rightarrow> (nat \<Rightarrow> GateType) \<Rightarrow> AppState \<Rightarrow> Completion" where
  "executeMove actionType playerId sl gt handIndexToRemove rnd st =
     (let st1 = st\<lparr>isThinking := True\<rparr> in
      if board st = [] then Threw TypeError st1
      else if actionType = PLACE \<and> sl \<noteq> None \<and> gt \<noteq> None \<and> handIndexToRemove \<noteq> None then
        (case setGate (board st) (the sl) (the gt) of
           None \<Rightarrow> OutOfModel
         | Some newBoard \<Rightarrow>
             (case evaluateBoard newBoard (inputs st) of
                Inl e \<Rightarrow> Threw e st1
              | Inr evaluatedBoard \<Rightarrow>
                  (let st2 = st1\<lparr>board := evaluatedBoard\<rparr> in
                   case checkWinCondition evaluatedBoard of
                     Inl e \<Rightarrow> Threw e st2
                   | Inr (Some winResult) \<Rightarrow>
                       Returned (st2\<lparr>winner := Some winResult, isThinking := False\<rparr>)
                   | Inr None \<Rightarrow>
                       (let newHand = drawUp (splice1 (hand (getPlayer (players st) playerId))
                                                      (the handIndexToRemove)) rnd 0
                        in Returned (endOfTurn playerId
                             (st2\<lparr>players := setHand (players st2) playerId newHand\<rparr>))))))
      else if actionType = DISCARD then
        (let newHand = map rnd [0..<INITIAL_HAND_SIZE]
         in Returned (endOfTurn playerId
              (st1\<lparr>players := setHand (players st1) playerId newHand\<rparr>)))
      else Returned (endOfTurn playerId st1))"

subsection \<open>The human handlers\<close>

definition handleCardSelect :: "nat \<Rightarrow> AppState \<Rightarrow> AppState" where
  "handleCardSelect index st =
     (if winner st \<noteq> None \<or> isThinking st then st
      else if isAI st \<and> turn st = P2 then st
      else if selectedCardIndex st = Some index then st\<lparr>selectedCardIndex := None\<rparr>
      else st\<lparr>selectedCardIndex := Some index\<rparr>)"

definition handleSlotClick :: "int \<Rightarrow> (nat \<Rightarrow> GateType) \<Rightarrow> AppState \<Rightarrow> Completion" where
  "handleSlotClick sl rnd st =
     (if winner st \<noteq> None \<or> isThinking st then Returned st
      else case selectedCardIndex st of
        None \<Rightarrow> Returned st
      | Some idx \<Rightarrow>
          (case nodeAt (board st) sl of
             None \<Rightarrow> Threw TypeError st
           | Some n \<Rightarrow>
               if gate n \<noteq> None then Returned st
               else
                 (let currentPlayer = getPlayer (players st) (turn st);
                      gateToPlace = cardAt (hand currentPlayer) idx
                  in executeMove PLACE (turn st) (Some (Index sl)) gateToPlace (Some idx) rnd st)))"

definition handleDiscardHand :: "(nat \<Rightarrow> GateType) \<Rightarrow> AppState \<Rightarrow> Completion" where
  "handleDiscardHand rnd st =
     (if winner st \<noteq> None \<or> isThinking st then Returned st
      else executeMove DISCARD (turn st) None None None rnd st)"

subsection \<open>The automated player's turn\<close>

text \<open>
  \<^verbatim>\<open>AIMove\<close> as \<^verbatim>\<open>JSON.parse\<close> delivers it: nothing is checked, so \<^verbatim>\<open>actionType\<close> is any
  string and the other fields may be absent. \<^verbatim>\<open>slotId\<close> is a number (an integer in the
  response schema); \<^verbatim>\<open>gateType\<close> is a string.
\<close>

record AIMove =
  actionType :: string
  slotId :: "int option"
  gateType :: "string option"
  reasoning :: "string option"

text \<open>The string value of each enum member.\<close>

fun gateName :: "GateType \<Rightarrow> string" where
  "gateName AND = ''AND''"
| "gateName OR = ''OR''"
| "gateName XOR = ''XOR''"
| "gateName NAND = ''NAND''"
| "gateName NOR = ''NOR''"

text \<open>\<^verbatim>\<open>xs.indexOf(x)\<close>: the first index holding \<open>x\<close>; \<open>None\<close> stands for \<open>-1\<close>.\<close>

fun indexOf :: "'a list \<Rightarrow> 'a \<Rightarrow> nat option" where
  "indexOf [] x = None"
| "indexOf (y # ys) x = (if y = x then Some 0 else map_option Suc (indexOf ys x))"

text \<open>
  The body of the \<^verbatim>\<open>try\<close> block of \<^verbatim>\<open>performAIMove\<close>. \<open>proposal\<close> is what
  \<^verbatim>\<open>await getAIMove(...)\<close> gave: a move, or \<open>None\<close> when the call raised.
  \<^verbatim>\<open>!aiMove.slotId && aiMove.slotId !== 0\<close> holds exactly for an absent \<^verbatim>\<open>slotId\<close>;
  \<^verbatim>\<open>!aiMove.gateType\<close> holds for an absent or empty string.
\<close>

definition aiTry :: "AIMove option \<Rightarrow> (nat \<Rightarrow> GateType) \<Rightarrow> AppState \<Rightarrow> Completion" where
  "aiTry proposal rnd st =
     (case proposal of
        None \<Rightarrow> Threw (Error ''No moves possible'') st
      | Some aiMove \<Rightarrow>
          if actionType aiMove = ''DISCARD'' then executeMove DISCARD P2 None None None rnd st
          else if slotId aiMove = None then Threw (Error ''Missing slotId'') st
          else if gateType aiMove = None \<or> gateType aiMove = Some [] then
            Threw (Error ''Missing gateType'') st
          else
            (case nodeAt (board st) (the (slotId aiMove)) of
               None \<Rightarrow> Threw TypeError st
             | Some n \<Rightarrow>
                 if gate n \<noteq> None then
                   (case find (\<lambda>n. gate n = None) (board st) of
                      Some emptyNode \<Rightarrow>
                        (let handIdx = 0;
                             h = hand (getPlayer (players st) P2)
                         in executeMove PLACE P2 (map_option Name (cardAt h handIdx))
                              (cardAt h handIdx) (Some handIdx) rnd st)
                    | None \<Rightarrow> executeMove DISCARD P2 None None None rnd st)
                 else
                   (let h = hand (getPlayer (players st) P2);
                        gateIdx = indexOf (map gateName h) (the (gateType aiMove));
                        validIdx = (case gateIdx of Some i \<Rightarrow> i | None \<Rightarrow> 0);
                        validGate = (case gateIdx of Some i \<Rightarrow> cardAt h i | None \<Rightarrow> cardAt h 0)
                    in executeMove PLACE P2 (Some (Index (the (slotId aiMove)))) validGate
                         (Some validIdx) rnd st)))"

text \<open>
  \<^verbatim>\<open>performAIMove\<close>: \<^verbatim>\<open>setIsThinking(true)\<close>, the \<^verbatim>\<open>try\<close> block, and the \<^verbatim>\<open>catch\<close>
  block, which discards.
\<close>

definition performAIMove :: "AIMove option \<Rightarrow> (nat \<Rightarrow> GateType) \<Rightarrow> AppState \<Rightarrow> Completion" where
  "performAIMove proposal rnd st =
     (case aiTry proposal rnd (st\<lparr>isThinking := True\<rparr>) of
        Threw e s \<Rightarrow> executeMove DISCARD P2 None None None rnd s
      | r \<Rightarrow> r)"

text \<open>The effect that runs \<^verbatim>\<open>performAIMove\<close>, with its guard.\<close>

definition aiTurnEffect :: "AIMove option \<Rightarrow> (nat \<Rightarrow> GateType) \<Rightarrow> AppState \<Rightarrow> Completion" where
  "aiTurnEffect proposal rnd st =
     (if gameStarted st \<and> winner st = None \<and> isAI st \<and> turn st = P2 \<and> \<not> isThinking st
      then performAIMove proposal rnd st
      else Returned st)"

text \<open>
  The hand index that \<^verbatim>\<open>performAIMove\<close> plays for a proposed gate name \<open>s\<close>:
  \<^verbatim>\<open>gateIdx > -1 ? gateIdx : 0\<close>.
\<close>

definition validIdxOf :: "GateType list \<Rightarrow> string \<Rightarrow> nat" where
  "validIdxOf h s = (case indexOf (map gateName h) s of Some j \<Rightarrow> j | None \<Rightarrow> 0)"

section \<open>The evaluator on an explicit store\<close>

text \<open>
  \<^verbatim>\<open>evaluateBoard\<close> once more, on an explicit store, to see what it writes. Node objects
  and arrays live at references; an array holds references to node objects.
  \<^verbatim>\<open>[...nodes]\<close> allocates a new array with the same references; each
  \<^verbatim>\<open>newNodes[i] = { ...node, value: v }\<close> allocates a new object and stores its reference
  in the new array.
\<close>

type_synonym ref = nat

record Heap =
  objects :: "ref \<Rightarrow> BoardNode option"
  arrays :: "ref \<Rightarrow> ref list option"
  nextRef :: ref

text \<open>\<^verbatim>\<open>arr[j]\<close> followed by a field read: a TypeError when \<^verbatim>\<open>arr[j]\<close> is \<^verbatim>\<open>undefined\<close>.\<close>

definition readNode :: "Heap \<Rightarrow> ref \<Rightarrow> nat \<Rightarrow> JSError + BoardNode" where
  "readNode h a j =
     (case arrays h a of
        None \<Rightarrow> Inl TypeError
      | Some refs \<Rightarrow>
          if j < length refs then
            (case objects h (refs ! j) of None \<Rightarrow> Inl TypeError | Some n \<Rightarrow> Inr n)
          else Inl TypeError)"

text \<open>\<^verbatim>\<open>arr[i] = { ...node, value: v }\<close>, with \<open>n\<close> the new object's content.\<close>

definition writeNew :: "Heap \<Rightarrow> ref \<Rightarrow> nat \<Rightarrow> BoardNode \<Rightarrow> Heap" where
  "writeNew h a i n =
     (let r = nextRef h in
      h\<lparr>objects := (objects h)(r \<mapsto> n),
        arrays := (arrays h)(a := map_option (\<lambda>refs. refs[i := r]) (arrays h a)),
        nextRef := Suc r\<rparr>)"

text \<open>
  One iteration of the loop on the store: the reads go through the array \<open>newNodes\<close>,
  the result goes into a new object.
\<close>

definition evalSlotH :: "Bit list \<Rightarrow> nat \<Rightarrow> ref \<Rightarrow> Heap \<Rightarrow> JSError + Heap" where
  "evalSlotH ins i newNodes h =
     (case readNode h newNodes i of
        Inl e \<Rightarrow> Inl e
      | Inr node \<Rightarrow>
          (case gate node of
             None \<Rightarrow> Inr (writeNew h newNodes i (node\<lparr>node_value := None\<rparr>))
           | Some g \<Rightarrow>
               (case (if i \<ge> 3 then Inr (inputAt ins ((i - 3) * 2))
                      else map_sum id valueOf (readNode h newNodes (i * 2 + 1))) of
                  Inl e \<Rightarrow> Inl e
                | Inr valA \<Rightarrow>
                    (case (if i \<ge> 3 then Inr (inputAt ins ((i - 3) * 2 + 1))
                           else map_sum id valueOf (readNode h newNodes (i * 2 + 2))) of
                       Inl e \<Rightarrow> Inl e
                     | Inr valB \<Rightarrow>
                         if valA \<noteq> Null \<and> valB \<noteq> Null
                         then Inr (writeNew h newNodes i
                                (node\<lparr>node_value := Some (evaluateGate g valA valB)\<rparr>))
                         else Inr (writeNew h newNodes i (node\<lparr>node_value := None\<rparr>))))))"

text \<open>
  The loop; an exception ends it.
\<close>

fun evalLoopH :: "nat \<Rightarrow> Bit list \<Rightarrow> ref \<Rightarrow> Heap \<Rightarrow> JSError + Heap" where
  "evalLoopH 0 ins newNodes h = Inr h"
| "evalLoopH (Suc i) ins newNodes h =
     (case evalSlotH ins i newNodes h of
        Inl e \<Rightarrow> Inl e
      | Inr h' \<Rightarrow> evalLoopH i ins newNodes h')"

text \<open>\<^verbatim>\<open>evaluateBoard(nodes, inputs)\<close> with \<open>nodes\<close> a reference: the result is the new store
  and the reference of the returned array.\<close>

definition evaluateBoardH :: "ref \<Rightarrow> Bit list \<Rightarrow> Heap \<Rightarrow> JSError + (Heap \<times> ref)" where
  "evaluateBoardH nodes ins h =
     (case arrays h nodes of
        None \<Rightarrow> Inl TypeError
      | Some refs \<Rightarrow>
          (let newNodes = nextRef h;
               h1 = h\<lparr>arrays := (arrays h)(newNodes \<mapsto> refs), nextRef := Suc newNodes\<rparr>
           in case evalLoopH BOARD_SIZE ins newNodes h1 of
                Inl e \<Rightarrow> Inl e
              | Inr h' \<Rightarrow> Inr (h', newNodes)))"

text \<open>The list of nodes that an array reference stands for.\<close>

definition deref :: "Heap \<Rightarrow> ref \<Rightarrow> BoardNode list" where
  "deref h a = (case arrays h a of None \<Rightarrow> [] | Some refs \<Rightarrow> map (\<lambda>r. the (objects h r)) refs)"

text \<open>
  A well-formed array: it is allocated, and so are the objects it refers to.
\<close>

definition wfArray :: "Heap \<Rightarrow> ref \<Rightarrow> bool" where
  "wfArray h a \<longleftrightarrow>
     a < nextRef h \<and>
     (case arrays h a of
        None \<Rightarrow> False
      | Some refs \<Rightarrow> list_all (\<lambda>r. r < nextRef h \<and> objects h r \<noteq> None) refs)"

text \<open>Everything allocated in \<open>h\<close> is in \<open>h'\<close> as it was.\<close>

definition preserved :: "Heap \<Rightarrow> Heap \<Rightarrow> bool" where
  "preserved h h' \<longleftrightarrow>
     nextRef h \<le> nextRef h' \<and>
     (\<forall>r < nextRef h. objects h' r = objects h r \<and> arrays h' r = arrays h r)"

section \<open>Predicates used in the statements\<close>

text \<open>
  The value that the loop iteration at index \<open>i\<close> stores: the body of \<open>evalSlot\<close>
  without the array write (lemma \<open>evalSlot_eq\<close>).
\<close>

definition slotValue :: "Bit list \<Rightarrow> BoardNode list \<Rightarrow> nat \<Rightarrow> Bit option" where
  "slotValue ins nodes i =
     (case gate (nodes ! i) of
        None \<Rightarrow> None
      | Some g \<Rightarrow>
          (let valA = (if i \<ge> 3 then inputAt ins ((i - 3) * 2)
                       else valueOf (nodes ! (i * 2 + 1)));
               valB = (if i \<ge> 3 then inputAt ins ((i - 3) * 2 + 1)
                       else valueOf (nodes ! (i * 2 + 2)))
           in if valA \<noteq> Null \<and> valB \<noteq> Null then Some (evaluateGate g valA valB) else None))"

text \<open>The stored value of slot \<open>i\<close> is the one an iteration at \<open>i\<close> would store again.\<close>

definition settled :: "Bit list \<Rightarrow> BoardNode list \<Rightarrow> nat \<Rightarrow> bool" where
  "settled ins nodes i \<longleftrightarrow> node_value (nodes ! i) = slotValue ins nodes i"

text \<open>The boolean table of each gate, as the specification words it.\<close>

definition specTable :: "GateType \<Rightarrow> bool \<Rightarrow> bool \<Rightarrow> bool" where
  "specTable g A B =
     (case g of AND \<Rightarrow> A \<and> B | OR \<Rightarrow> A \<or> B | XOR \<Rightarrow> A \<noteq> B
      | NAND \<Rightarrow> \<not> (A \<and> B) | NOR \<Rightarrow> \<not> (A \<or> B))"

text \<open>The input bit at a position, when there is one.\<close>

definition bitAt :: "Bit list \<Rightarrow> nat \<Rightarrow> Bit option" where
  "bitAt ins k = (if k < length ins then Some (ins ! k) else None)"

text \<open>
  The two operands of slot \<open>i\<close>: input bits for a leaf, the children's values for an
  inner slot.
\<close>

definition operandsAt :: "Bit list \<Rightarrow> BoardNode list \<Rightarrow> nat \<Rightarrow> Bit option \<times> Bit option" where
  "operandsAt ins r i =
     (if i \<ge> 3 then (bitAt ins ((i - 3) * 2), bitAt ins ((i - 3) * 2 + 1))
      else (node_value (r ! (i * 2 + 1)), node_value (r ! (i * 2 + 2))))"

text \<open>
  The property of one slot of an evaluated board: its value is unset exactly when its
  gate is unset or (for an inner slot) a child's value is unset, and otherwise it is the
  gate's table applied to the operands.
\<close>

definition slotConsistent :: "Bit list \<Rightarrow> BoardNode list \<Rightarrow> nat \<Rightarrow> bool" where
  "slotConsistent ins r i \<longleftrightarrow>
     (node_value (r ! i) = None \<longleftrightarrow>
        gate (r ! i) = None \<or>
        (i < 3 \<and> (node_value (r ! (i * 2 + 1)) = None \<or> node_value (r ! (i * 2 + 2)) = None)))
     \<and> (case (gate (r ! i), operandsAt ins r i) of
          (Some g, Some A, Some B) \<Rightarrow>
             node_value (r ! i) = Some (toBit (specTable g (A = One) (B = One)))
        | _ \<Rightarrow> True)"

text \<open>All seven slots are consistent.\<close>

definition boardConsistent :: "Bit list \<Rightarrow> BoardNode list \<Rightarrow> bool" where
  "boardConsistent ins r \<longleftrightarrow> list_all (slotConsistent ins r) [0..<BOARD_SIZE]"

text \<open>
  The board with every value field reset: what is left is the gate assignment.
\<close>

definition eraseValues :: "BoardNode list \<Rightarrow> BoardNode list" where
  "eraseValues b = map (\<lambda>n. n\<lparr>node_value := None\<rparr>) b"

section \<open>The state machine and the validation policy as the specification words them\<close>

text \<open>
  The game state of the specification (section 3): the board, the input vector, the two
  hands, the current player, the winner and the turn count. The constant fields of a
  player (id, target bit) are left out.
\<close>

record GameState =
  gs_board :: "BoardNode list"
  gs_inputs :: "Bit list"
  gs_handP1 :: "GateType list"
  gs_handP2 :: "GateType list"
  currentPlayer :: PlayerId
  gs_winner :: "Outcome option"
  turnCount :: nat

datatype SpecError = InvalidMove

fun spec_hand :: "GameState \<Rightarrow> PlayerId \<Rightarrow> GateType list" where
  "spec_hand s P1 = gs_handP1 s"
| "spec_hand s P2 = gs_handP2 s"

fun spec_setHand :: "GameState \<Rightarrow> PlayerId \<Rightarrow> GateType list \<Rightarrow> GameState" where
  "spec_setHand s P1 h = s\<lparr>gs_handP1 := h\<rparr>"
| "spec_setHand s P2 h = s\<lparr>gs_handP2 := h\<rparr>"

text \<open>
  Section 4.1, one slot: an unset gate gives an unset value; otherwise the operands are
  gathered (input bits for a leaf, the children's values for an inner slot); an unset
  operand gives an unset value; otherwise the gate's boolean table is applied.
\<close>

definition spec_evalSlot :: "Bit list \<Rightarrow> BoardNode list \<Rightarrow> nat \<Rightarrow> BoardNode list" where
  "spec_evalSlot ins b i =
     b[i := (b ! i)\<lparr>node_value :=
        (case gate (b ! i) of
           None \<Rightarrow> None
         | Some g \<Rightarrow>
             (case operandsAt ins b i of
                (Some A, Some B) \<Rightarrow> Some (toBit (specTable g (A = One) (B = One)))
              | _ \<Rightarrow> None))\<rparr>]"

text \<open>Section 4.1: the slots are processed in descending id order, 6 down to 0.\<close>

definition spec_evaluate :: "BoardNode list \<Rightarrow> Bit list \<Rightarrow> BoardNode list" where
  "spec_evaluate b ins = fold (\<lambda>i b'. spec_evalSlot ins b' i) (rev [0..<7]) b"

text \<open>
  Section 4.2a: no winner unless every slot has a gate; on a full board root value 1 is
  P1, 0 is P2, and an unset root is the defensive DRAW.
\<close>

definition spec_checkWin :: "BoardNode list \<Rightarrow> Outcome option" where
  "spec_checkWin b =
     (if list_all (\<lambda>n. gate n \<noteq> None) b then
        (case node_value (b ! 0) of
           Some One \<Rightarrow> Some (Won P1)
         | Some Zero \<Rightarrow> Some (Won P2)
         | None \<Rightarrow> Some DRAW)
      else None)"

text \<open>
  Section 4.2, \<open>placeGate\<close>, with \<open>fresh\<close> the freshly random gate. Preconditions: winner
  unset, slot in [0,6] with its gate unset, gate in the current player's hand; otherwise
  \<open>InvalidMove\<close>. Effect, in the specification's order: set the gate; evaluate the whole
  board; remove the first occurrence of the gate from the hand and append the fresh
  gate; evaluate the win condition; if there is no winner, pass the turn and count it.
\<close>

definition spec_placeGate ::
  "GameState \<Rightarrow> int \<Rightarrow> GateType \<Rightarrow> GateType \<Rightarrow> SpecError + GameState" where
  "spec_placeGate s slot gk fresh =
     (if gs_winner s \<noteq> None \<or> \<not> (0 \<le> slot \<and> slot \<le> 6)
         \<or> \<not> nat slot < length (gs_board s)
         \<or> gate (gs_board s ! nat slot) \<noteq> None
         \<or> gk \<notin> set (spec_hand s (currentPlayer s))
      then Inl InvalidMove
      else
        (let b = spec_evaluate
                   ((gs_board s)[nat slot := (gs_board s ! nat slot)\<lparr>gate := Some gk\<rparr>])
                   (gs_inputs s);
             h = remove1 gk (spec_hand s (currentPlayer s)) @ [fresh];
             s1 = spec_setHand (s\<lparr>gs_board := b\<rparr>) (currentPlayer s) h
         in case spec_checkWin b of
              Some w \<Rightarrow> Inr (s1\<lparr>gs_winner := Some w\<rparr>)
            | None \<Rightarrow>
                Inr (s1\<lparr>currentPlayer := otherPlayer (currentPlayer s),
                        turnCount := Suc (turnCount s)\<rparr>)))"

text \<open>
  Section 4.2, \<open>discardHand\<close>: the winner must be unset; the hand is replaced by three
  fresh gates, the board stays, the turn passes and is counted.
\<close>

definition spec_discardHand :: "GameState \<Rightarrow> GateType list \<Rightarrow> SpecError + GameState" where
  "spec_discardHand s fresh3 =
     (if gs_winner s \<noteq> None then Inl InvalidMove
      else Inr ((spec_setHand s (currentPlayer s) fresh3)
                  \<lparr>currentPlayer := otherPlayer (currentPlayer s),
                   turnCount := Suc (turnCount s)\<rparr>))"

text \<open>The first empty slot by ascending id, if there is one.\<close>

definition spec_firstEmptySlot :: "BoardNode list \<Rightarrow> nat option" where
  "spec_firstEmptySlot b = indexOf (map gate b) None"

text \<open>
  Section 4.3, the validation policy, on an untrusted proposal (\<open>None\<close>: the external call
  failed). Rule 1 and 2: no proposal, or a tag that is not PLACE, is a discard. Rule 3a:
  a slot that is absent, outside [0,6] or occupied is replaced by the first empty slot.
  Rule 3b: a gate that is absent or not in the hand is replaced by the first card of the
  hand. Rule 3c: with no empty slot, discard. Rule 3d: \<open>placeGate\<close>. The random gates
  are \<open>rnd 0\<close>, \<open>rnd 1\<close>, \<open>rnd 2\<close>.
\<close>

definition spec_MoveValidator ::
  "AIMove option \<Rightarrow> (nat \<Rightarrow> GateType) \<Rightarrow> GameState \<Rightarrow> SpecError + GameState" where
  "spec_MoveValidator proposal rnd s =
     (let h = spec_hand s (currentPlayer s);
          discard = spec_discardHand s [rnd 0, rnd 1, rnd 2]
      in case proposal of
           None \<Rightarrow> discard
         | Some m \<Rightarrow>
             if actionType m \<noteq> ''PLACE'' then discard
             else
               (let slot =
                      (case slotId m of
                         None \<Rightarrow> spec_firstEmptySlot (gs_board s)
                       | Some i \<Rightarrow>
                           if 0 \<le> i \<and> i \<le> 6 \<and> nat i < length (gs_board s)
                              \<and> gate (gs_board s ! nat i) = None
                           then Some (nat i)
                           else spec_firstEmptySlot (gs_board s));
                    gk =
                      (case gateType m of
                         None \<Rightarrow> cardAt h 0
                       | Some g \<Rightarrow>
                           (case find (\<lambda>c. gateName c = g) h of
                              Some c \<Rightarrow> Some c
                            | None \<Rightarrow> cardAt h 0))
                in case (slot, gk) of
                     (Some k, Some c) \<Rightarrow> spec_placeGate s (int k) c (rnd 0)
                   | _ \<Rightarrow> discard))"

text \<open>
  The specification's view of an application state; the turn count, which the
  application does not keep, is given.
\<close>

definition absState :: "nat \<Rightarrow> AppState \<Rightarrow> GameState" where
  "absState n st =
     \<lparr>gs_board = board st, gs_inputs = inputs st,
      gs_handP1 = hand (playerP1 (players st)), gs_handP2 = hand (playerP2 (players st)),
      currentPlayer = turn st, gs_winner = winner st, turnCount = n\<rparr>"

section \<open>Boards, states and proposals of the examples\<close>

text \<open>
  The input vector 1,0,1,0,1,0,1,0 of the specification's second scenario.
\<close>

definition altInputs :: "Bit list" where
  "altInputs = [One, Zero, One, Zero, One, Zero, One, Zero]"

text \<open>A fixed sequence of draws for the examples.\<close>

definition exampleRnd :: "nat \<Rightarrow> GateType" where
  "exampleRnd k = (if k = 0 then NOR else if k = 1 then AND else XOR)"

text \<open>
  A board in play, evaluated on \<open>altInputs\<close>: slots 0, 1, 3 and 4 hold gates, slot 2 is
  the first empty slot, slots 5 and 6 are empty too.
\<close>

definition scenarioBoard :: "BoardNode list" where
  "scenarioBoard =
     [\<lparr>node_id = 0, gate = Some XOR, node_value = None\<rparr>,
      \<lparr>node_id = 1, gate = Some AND, node_value = Some One\<rparr>,
      \<lparr>node_id = 2, gate = None, node_value = None\<rparr>,
      \<lparr>node_id = 3, gate = Some OR, node_value = Some One\<rparr>,
      \<lparr>node_id = 4, gate = Some OR, node_value = Some One\<rparr>,
      \<lparr>node_id = 5, gate = None, node_value = None\<rparr>,
      \<lparr>node_id = 6, gate = None, node_value = None\<rparr>]"

definition examplePlayers :: Players where
  "examplePlayers =
     \<lparr>playerP1 = \<lparr>player_id = P1, player_name = ''Player 1'', targetValue = One,
                   color = ''blue'', hand = [AND, NOR, AND]\<rparr>,
      playerP2 = \<lparr>player_id = P2, player_name = ''Cortex (AI)'', targetValue = Zero,
                   color = ''red'', hand = [OR, XOR, NAND]\<rparr>\<rparr>"

text \<open>The automated player P2 is to move on \<open>scenarioBoard\<close> with hand [OR, XOR, NAND].\<close>

definition scenarioState :: AppState where
  "scenarioState =
     \<lparr>gameStarted = True, isAI = True, board = scenarioBoard, inputs = altInputs,
      players = examplePlayers, turn = P2, winner = None, selectedCardIndex = None,
      isThinking = False\<rparr>"

text \<open>One slot left: slot 2 is the only empty slot.\<close>

definition lastSlotBoard :: "BoardNode list" where
  "lastSlotBoard =
     [\<lparr>node_id = 0, gate = Some XOR, node_value = None\<rparr>,
      \<lparr>node_id = 1, gate = Some AND, node_value = Some One\<rparr>,
      \<lparr>node_id = 2, gate = None, node_value = None\<rparr>,
      \<lparr>node_id = 3, gate = Some OR, node_value = Some One\<rparr>,
      \<lparr>node_id = 4, gate = Some OR, node_value = Some One\<rparr>,
      \<lparr>node_id = 5, gate = Some OR, node_value = Some One\<rparr>,
      \<lparr>node_id = 6, gate = Some OR, node_value = Some One\<rparr>]"

definition lastSlotState :: AppState where
  "lastSlotState = scenarioState\<lparr>board := lastSlotBoard\<rparr>"

text \<open>The state after P2 has placed OR on the last empty slot of \<open>lastSlotState\<close>.\<close>

definition wonBoard :: "BoardNode list" where
  "wonBoard =
     [\<lparr>node_id = 0, gate = Some XOR, node_value = Some Zero\<rparr>,
      \<lparr>node_id = 1, gate = Some AND, node_value = Some One\<rparr>,
      \<lparr>node_id = 2, gate = Some OR, node_value = Some One\<rparr>,
      \<lparr>node_id = 3, gate = Some OR, node_value = Some One\<rparr>,
      \<lparr>node_id = 4, gate = Some OR, node_value = Some One\<rparr>,
      \<lparr>node_id = 5, gate = Some OR, node_value = Some One\<rparr>,
      \<lparr>node_id = 6, gate = Some OR, node_value = Some One\<rparr>]"

definition wonState :: AppState where
  "wonState = lastSlotState\<lparr>board := wonBoard, winner := Some (Won P2)\<rparr>"

text \<open>
  Local multiplayer on \<open>scenarioBoard\<close>: P1 is to move and has selected the card at
  hand index 1, a NOR.
\<close>

definition humanState :: AppState where
  "humanState = scenarioState\<lparr>isAI := False, turn := P1, selectedCardIndex := Some 1\<rparr>"

text \<open>The state after P1 has placed the NOR at hand index 1 on slot 2 of \<open>humanState\<close>.\<close>

definition afterHumanMove :: AppState where
  "afterHumanMove =
     humanState\<lparr>board := scenarioBoard[2 := \<lparr>node_id = 2, gate = Some NOR, node_value = None\<rparr>],
                 players := setHand examplePlayers P1 [AND, AND, NOR],
                 selectedCardIndex := None, turn := P2\<rparr>"

text \<open>The state after a direct placement of OR on the occupied root slot of \<open>scenarioState\<close>.\<close>

definition overwrittenState :: AppState where
  "overwrittenState =
     scenarioState\<lparr>board := scenarioBoard[0 := \<lparr>node_id = 0, gate = Some OR, node_value = None\<rparr>],
                    players := setHand examplePlayers P2 [XOR, NAND, NOR],
                    turn := P1\<rparr>"

text \<open>\<open>scenarioState\<close> after P2's hand has been discarded and redrawn.\<close>

definition discardedState :: AppState where
  "discardedState = scenarioState\<lparr>players := setHand examplePlayers P2 [NOR, AND, XOR], turn := P1\<rparr>"

text \<open>\<open>scenarioState\<close> after P2 has placed the first card of its hand, OR, on slot 2.\<close>

definition afterSubstitution :: AppState where
  "afterSubstitution =
     scenarioState\<lparr>board := scenarioBoard[2 := \<lparr>node_id = 2, gate = Some OR, node_value = None\<rparr>],
                    players := setHand examplePlayers P2 [XOR, NAND, NOR], turn := P1\<rparr>"

text \<open>\<open>scenarioState\<close> with P2's first card replaced by a drawn one and the turn passed.\<close>

definition afterFallback :: AppState where
  "afterFallback = scenarioState\<lparr>players := setHand examplePlayers P2 [XOR, NAND, NOR], turn := P1\<rparr>"

text \<open>The proposal of the specification's scenario: PLACE, slot 99, gate AND.\<close>

definition proposal99 :: AIMove where
  "proposal99 = \<lparr>actionType = ''PLACE'', slotId = Some 99, gateType = Some ''AND'', reasoning = None\<rparr>"

text \<open>A proposal for the empty slot 2 with a gate that is not in P2's hand.\<close>

definition proposalSlot2 :: AIMove where
  "proposalSlot2 = \<lparr>actionType = ''PLACE'', slotId = Some 2, gateType = Some ''AND'', reasoning = None\<rparr>"

text \<open>A proposal for the occupied root slot with a gate that is in P2's hand.\<close>

definition proposalOccupied :: AIMove where
  "proposalOccupied = \<lparr>actionType = ''PLACE'', slotId = Some 0, gateType = Some ''OR'', reasoning = None\<rparr>"

text \<open>The human proposal that a click on the occupied root slot stands for.\<close>

definition proposalHuman :: AIMove where
  "proposalHuman = \<lparr>actionType = ''PLACE'', slotId = Some 0, gateType = Some ''NOR'', reasoning = None\<rparr>"

text \<open>
  A store holding the nodes of \<open>scenarioBoard\<close> with their values erased at references
  0 to 6, and at reference 7 the array of these references.
\<close>

definition exampleHeap :: Heap where
  "exampleHeap =
     \<lparr>objects = (\<lambda>r. if r < 7 then Some (eraseValues scenarioBoard ! r) else None),
      arrays = (\<lambda>r. if r = 7 then Some [0, 1, 2, 3, 4, 5, 6] else None),
      nextRef = 8\<rparr>"

text \<open>P1 is to move on \<open>lastSlotBoard\<close> and has selected the NOR at hand index 1.\<close>

definition humanLastSlotState :: AppState where
  "humanLastSlotState = lastSlotState\<lparr>isAI := False, turn := P1, selectedCardIndex := Some 1\<rparr>"

text \<open>The state after P1's NOR has filled the last slot of \<open>humanLastSlotState\<close> and won.\<close>

definition humanWonState :: AppState where
  "humanWonState =
     humanLastSlotState
       \<lparr>board := wonBoard[0 := \<lparr>node_id = 0, gate = Some XOR, node_value = Some One\<rparr>,
                         2 := \<lparr>node_id = 2, gate = Some NOR, node_value = Some Zero\<rparr>],
        winner := Some (Won P1)\<rparr>"

text \<open>The proposal that P1's click on slot 2 with the NOR selected stands for.\<close>

definition proposalClick :: AIMove where
  "proposalClick = \<lparr>actionType = ''PLACE'', slotId = Some 2, gateType = Some ''NOR'', reasoning = None\<rparr>"

section \<open>The evaluation loop\<close>

lemma evalSlot_eq:
  "evalSlot ins i nodes = nodes[i := (nodes ! i)\<lparr>node_value := slotValue ins nodes i\<rparr>]"
  by (simp add: evalSlot_def slotValue_def Let_def split: option.splits)

lemma length_evalSlot [simp]: "length (evalSlot ins i nodes) = length nodes"
  by (simp add: evalSlot_eq)

lemma length_evalLoop [simp]: "length (evalLoop k ins nodes) = length nodes"
  by (induction k arbitrary: nodes) simp_all

lemma nth_evalSlot_other: "j \<noteq> i \<Longrightarrow> evalSlot ins i nodes ! j = nodes ! j"
  by (simp add: evalSlot_eq)

lemma nth_evalSlot_same:
  "i < length nodes \<Longrightarrow>
     evalSlot ins i nodes ! i = (nodes ! i)\<lparr>node_value := slotValue ins nodes i\<rparr>"
  by (simp add: evalSlot_eq)

lemma gate_evalSlot [simp]: "gate (evalSlot ins i nodes ! j) = gate (nodes ! j)"
  by (cases "j = i"; cases "i < length nodes") (simp_all add: evalSlot_eq list_update_beyond)

lemma node_id_evalSlot [simp]: "node_id (evalSlot ins i nodes ! j) = node_id (nodes ! j)"
  by (cases "j = i"; cases "i < length nodes") (simp_all add: evalSlot_eq list_update_beyond)

lemma gate_evalLoop [simp]: "gate (evalLoop k ins nodes ! j) = gate (nodes ! j)"
  by (induction k arbitrary: nodes) simp_all

lemma node_id_evalLoop [simp]: "node_id (evalLoop k ins nodes ! j) = node_id (nodes ! j)"
  by (induction k arbitrary: nodes) simp_all

lemma map_gate_evalLoop: "map gate (evalLoop k ins b) = map gate b"
  by (rule nth_equalityI) simp_all

text \<open>The value at a slot depends on the nodes at that slot and its children only.\<close>

lemma slotValue_cong:
  "gate (nodes' ! i) = gate (nodes ! i) \<Longrightarrow>
   (i < 3 \<Longrightarrow> node_value (nodes' ! (i * 2 + 1)) = node_value (nodes ! (i * 2 + 1))
            \<and> node_value (nodes' ! (i * 2 + 2)) = node_value (nodes ! (i * 2 + 2))) \<Longrightarrow>
   slotValue ins nodes' i = slotValue ins nodes i"
  by (auto simp add: slotValue_def valueOf_def Let_def split: option.splits)

lemma settled_evalSlot_same:
  assumes "i < length nodes"
  shows "settled ins (evalSlot ins i nodes) i"
proof -
  have "slotValue ins (evalSlot ins i nodes) i = slotValue ins nodes i"
    by (rule slotValue_cong) (simp_all add: nth_evalSlot_other)
  then show ?thesis
    using assms by (simp add: settled_def nth_evalSlot_same)
qed

lemma settled_evalSlot_above:
  assumes "i < j" and "settled ins nodes j"
  shows "settled ins (evalSlot ins i nodes) j"
proof -
  have "slotValue ins (evalSlot ins i nodes) j = slotValue ins nodes j"
    using assms(1) by (intro slotValue_cong) (simp_all add: nth_evalSlot_other)
  then show ?thesis
    using assms by (simp add: settled_def nth_evalSlot_other)
qed

lemma settled_evalLoop:
  "k \<le> m \<Longrightarrow> m \<le> length nodes \<Longrightarrow> (\<forall>j. k \<le> j \<and> j < m \<longrightarrow> settled ins nodes j) \<Longrightarrow>
     j < m \<Longrightarrow> settled ins (evalLoop k ins nodes) j"
proof (induction k arbitrary: nodes)
  case 0
  then show ?case by simp
next
  case (Suc k)
  have "settled ins (evalLoop k ins (evalSlot ins k nodes)) j"
  proof (rule Suc.IH)
    show "k \<le> m" using Suc.prems by simp
    show "m \<le> length (evalSlot ins k nodes)" using Suc.prems by simp
    show "\<forall>j. k \<le> j \<and> j < m \<longrightarrow> settled ins (evalSlot ins k nodes) j"
    proof (intro allI impI)
      fix j' assume a: "k \<le> j' \<and> j' < m"
      show "settled ins (evalSlot ins k nodes) j'"
      proof (cases "j' = k")
        case True
        then show ?thesis using Suc.prems settled_evalSlot_same by simp
      next
        case False
        then have "k < j'" using a by simp
        moreover have "settled ins nodes j'" using Suc.prems a False by simp
        ultimately show ?thesis by (rule settled_evalSlot_above)
      qed
    qed
    show "j < m" using Suc.prems by simp
  qed
  then show ?case by simp
qed

lemma evalSlot_settled_id:
  "i < length nodes \<Longrightarrow> settled ins nodes i \<Longrightarrow> evalSlot ins i nodes = nodes"
  unfolding settled_def
  by (simp add: evalSlot_eq list_update_same_conv)

lemma evalLoop_settled_id:
  "k \<le> length nodes \<Longrightarrow> (\<forall>j<k. settled ins nodes j) \<Longrightarrow> evalLoop k ins nodes = nodes"
  by (induction k arbitrary: nodes) (simp_all add: evalSlot_settled_id)

lemma evaluateBoard_Inr:
  "BOARD_SIZE \<le> length b \<Longrightarrow> evaluateBoard b ins = Inr (evalLoop BOARD_SIZE ins b)"
  by (simp add: evaluateBoard_def)

lemma settled_evaluated:
  assumes "BOARD_SIZE \<le> length b" and "j < BOARD_SIZE"
  shows "settled ins (evalLoop BOARD_SIZE ins b) j"
proof -
  have "\<forall>j. BOARD_SIZE \<le> j \<and> j < BOARD_SIZE \<longrightarrow> settled ins b j"
    by (simp add: not_less [symmetric])
  with assms show ?thesis
    by (intro settled_evalLoop [where m = BOARD_SIZE]) simp_all
qed

lemma evalLoop_idem:
  "BOARD_SIZE \<le> length b \<Longrightarrow>
     evalLoop BOARD_SIZE ins (evalLoop BOARD_SIZE ins b) = evalLoop BOARD_SIZE ins b"
  by (rule evalLoop_settled_id) (simp_all add: settled_evaluated)

lemma evaluateGate_table:
  "evaluateGate g (Num A) (Num B) = toBit (specTable g (A = One) (B = One))"
  by (cases g; cases A; cases B) (simp_all add: specTable_def toBit_def)

lemma settled_slotConsistent:
  assumes "settled ins r i" and "i < BOARD_SIZE" and "length ins = INITIAL_INPUTS_COUNT"
  shows "slotConsistent ins r i"
proof (cases "i \<ge> 3")
  case True
  then have k: "(i - 3) * 2 < length ins" "(i - 3) * 2 + 1 < length ins"
    using assms(2,3) by (simp_all add: BOARD_SIZE_def INITIAL_INPUTS_COUNT_def)
  show ?thesis
    using assms(1) True k
    by (auto simp add: settled_def slotValue_def slotConsistent_def operandsAt_def bitAt_def
        inputAt_def evaluateGate_table split: option.splits)
next
  case False
  then show ?thesis
    using assms(1)
    by (auto simp add: settled_def slotValue_def slotConsistent_def operandsAt_def
        valueOf_def evaluateGate_table Let_def split: option.splits)
qed

lemma boardConsistent_evaluated:
  assumes "BOARD_SIZE \<le> length b" and "length ins = INITIAL_INPUTS_COUNT"
  shows "boardConsistent ins (evalLoop BOARD_SIZE ins b)"
  unfolding boardConsistent_def list_all_iff
  using assms by (auto intro!: settled_slotConsistent settled_evaluated)

section \<open>What executeMove does\<close>

text \<open>
  The definitions of the example states, for unfolding.
\<close>

lemmas example_defs =
  scenarioState_def scenarioBoard_def lastSlotState_def lastSlotBoard_def wonState_def
  wonBoard_def examplePlayers_def altInputs_def exampleRnd_def

lemma upt_hand [simp]: "map rnd [0..<INITIAL_HAND_SIZE] = [rnd 0, rnd 1, rnd 2]"
  by (simp add: INITIAL_HAND_SIZE_def upt_rec numeral_2_eq_2)

lemma drawUp_two: "length hnd = 2 \<Longrightarrow> drawUp hnd rnd k = hnd @ [rnd k]"
  by (simp add: drawUp.simps [of hnd] drawUp.simps [of "hnd @ [rnd k]"])

lemma length_splice1: "i < length xs \<Longrightarrow> length (splice1 xs i) = length xs - 1"
  by (simp add: splice1_def)

lemma mset_splice1: "i < length xs \<Longrightarrow> mset (splice1 xs i) + {#xs ! i#} = mset xs"
proof -
  assume "i < length xs"
  then have "xs = take i xs @ xs ! i # drop (Suc i) xs" by (rule id_take_nth_drop)
  then have "mset xs = mset (take i xs @ xs ! i # drop (Suc i) xs)" by simp
  then show ?thesis by (simp add: splice1_def)
qed

lemma getPlayer_setHand_same [simp]: "hand (getPlayer (setHand ps p h) p) = h"
  by (cases p) simp_all

lemma setGate_length: "setGate b k g = Some nb \<Longrightarrow> length nb = length b"
  by (auto simp add: setGate_def split: SlotKey.splits if_splits)

text \<open>What \<^verbatim>\<open>executeMove('DISCARD', ...)\<close> does.\<close>

lemma executeMove_DISCARD:
  "board st \<noteq> [] \<Longrightarrow>
     executeMove DISCARD p sl g h rnd st =
       Returned (st\<lparr>players := setHand (players st) p [rnd 0, rnd 1, rnd 2],
                    selectedCardIndex := None, turn := otherPlayer p, isThinking := False\<rparr>)"
  by (simp add: executeMove_def endOfTurn_def)

lemma checkWin_not_Inl: "nodes \<noteq> [] \<Longrightarrow> checkWinCondition nodes \<noteq> Inl e"
  by (cases nodes) (auto simp add: checkWinCondition_def split: option.splits Bit.splits)

text \<open>
  What \<^verbatim>\<open>executeMove('PLACE', ...)\<close> does on a board of at least seven nodes, by the
  result of the win check.
\<close>

lemma executeMove_PLACE:
  assumes "BOARD_SIZE \<le> length (board st)" and "setGate (board st) k g = Some nb"
  shows "executeMove PLACE p (Some k) (Some g) (Some h) rnd st =
     (case checkWinCondition (evalLoop BOARD_SIZE (inputs st) nb) of
        Inr (Some w) \<Rightarrow>
          Returned (st\<lparr>board := evalLoop BOARD_SIZE (inputs st) nb, winner := Some w,
                       isThinking := False\<rparr>)
      | _ \<Rightarrow>
          Returned (st\<lparr>board := evalLoop BOARD_SIZE (inputs st) nb,
                       players := setHand (players st) p
                         (drawUp (splice1 (hand (getPlayer (players st) p)) h) rnd 0),
                       selectedCardIndex := None, turn := otherPlayer p, isThinking := False\<rparr>))"
proof -
  have ne: "board st \<noteq> []" using assms(1) by (auto simp add: BOARD_SIZE_def)
  have len: "BOARD_SIZE \<le> length nb" using assms setGate_length by fastforce
  then have "length (evalLoop BOARD_SIZE (inputs st) nb) \<noteq> 0"
    by (auto simp add: BOARD_SIZE_def)
  then have "evalLoop BOARD_SIZE (inputs st) nb \<noteq> []" by (simp del: length_evalLoop)
  then have "\<And>e. checkWinCondition (evalLoop BOARD_SIZE (inputs st) nb) \<noteq> Inl e"
    by (rule checkWin_not_Inl)
  then show ?thesis
    using ne len assms(2)
    by (simp add: executeMove_def endOfTurn_def evaluateBoard_Inr split: sum.splits option.splits)
qed

lemma executeMove_board:
  assumes "executeMove a p sl g h rnd st = Returned st'"
  shows "inputs st' = inputs st \<and>
         (board st' = board st \<or>
          (\<exists>nb. length nb = length (board st) \<and> evaluateBoard nb (inputs st) = Inr (board st')))"
proof (cases "a = PLACE \<and> sl \<noteq> None \<and> g \<noteq> None \<and> h \<noteq> None")
  case True
  with assms show ?thesis
    by (auto simp add: executeMove_def endOfTurn_def Let_def dest: setGate_length
        split: if_splits option.splits sum.splits)
next
  case False
  with assms show ?thesis
    by (auto simp add: executeMove_def endOfTurn_def Let_def split: if_splits)
qed

lemma executeMove_consistent:
  assumes len: "length (board st) = BOARD_SIZE" and li: "length (inputs st) = INITIAL_INPUTS_COUNT"
    and c: "boardConsistent (inputs st) (board st)"
    and ex: "executeMove a p sl g h rnd st = Returned st'"
  shows "length (board st') = BOARD_SIZE \<and> inputs st' = inputs st
        \<and> boardConsistent (inputs st') (board st')"
proof -
  have ins: "inputs st' = inputs st"
    and b: "board st' = board st \<or>
          (\<exists>nb. length nb = length (board st) \<and> evaluateBoard nb (inputs st) = Inr (board st'))"
    using executeMove_board [OF ex] by simp_all
  from b have "length (board st') = BOARD_SIZE \<and> boardConsistent (inputs st) (board st')"
  proof
    assume "board st' = board st"
    with len c show ?thesis by simp
  next
    assume "\<exists>nb. length nb = length (board st) \<and> evaluateBoard nb (inputs st) = Inr (board st')"
    then obtain nb where nb: "length nb = BOARD_SIZE" "evaluateBoard nb (inputs st) = Inr (board st')"
      using len by auto
    then have "board st' = evalLoop BOARD_SIZE (inputs st) nb"
      by (simp add: evaluateBoard_Inr)
    then show ?thesis
      using nb(1) li by (simp add: boardConsistent_evaluated)
  qed
  with ins show ?thesis by simp
qed

text \<open>What a placement that returns does to the hand of the player who made it.\<close>

lemma executeMove_PLACE_hand:
  assumes ex: "executeMove PLACE p (Some k) (Some g) (Some h) rnd st = Returned st'"
    and nw: "winner st = None"
  shows "(winner st' = None \<longrightarrow>
            hand (getPlayer (players st') p) =
              drawUp (splice1 (hand (getPlayer (players st) p)) h) rnd 0)
       \<and> (winner st' \<noteq> None \<longrightarrow> players st' = players st)"
  using assms
  by (auto simp add: executeMove_def endOfTurn_def Let_def
      split: if_splits option.splits sum.splits)

lemma executeMove_win_keeps_turn:
  assumes "executeMove a p sl g h rnd st = Returned st'" and "winner st = None"
    and "winner st' \<noteq> None"
  shows "turn st' = turn st \<and> players st' = players st"
proof (cases "a = PLACE \<and> sl \<noteq> None \<and> g \<noteq> None \<and> h \<noteq> None")
  case True
  with assms show ?thesis
    by (auto simp add: executeMove_def endOfTurn_def Let_def
        split: if_splits option.splits sum.splits)
next
  case False
  with assms show ?thesis
    by (auto simp add: executeMove_def endOfTurn_def Let_def split: if_splits)
qed

text \<open>
  Three placements, computed.
\<close>

lemma lastSlot_placement:
  "executeMove PLACE P2 (Some (Index 2)) (Some OR) (Some 0) exampleRnd lastSlotState
     = Returned wonState"
  by code_simp

lemma human_placement:
  "executeMove PLACE P1 (Some (Index 2)) (Some NOR) (Some 1) exampleRnd humanState
     = Returned afterHumanMove"
  by code_simp

lemma overwriting_placement:
  "executeMove PLACE P2 (Some (Index 0)) (Some OR) (Some 0) exampleRnd scenarioState
     = Returned overwrittenState"
  by code_simp

section \<open>The win check (C6)\<close>

lemma checkWin_cases:
  assumes "length nodes = BOARD_SIZE" and "\<forall>n \<in> set nodes. gate n \<noteq> None"
  shows "(checkWinCondition nodes = Inr (Some (Won P1)) \<longleftrightarrow> node_value (nodes ! 0) = Some One)
       \<and> (checkWinCondition nodes = Inr (Some (Won P2)) \<longleftrightarrow> node_value (nodes ! 0) = Some Zero)"
proof -
  obtain n0 ns where nodes: "nodes = n0 # ns"
    using assms by (cases nodes) (simp_all add: BOARD_SIZE_def)
  show ?thesis
    using assms(2) unfolding nodes
    by (auto simp add: checkWinCondition_def list_all_iff split: option.splits Bit.splits)
qed

text \<open>
  Claim C6. On a board of seven nodes, \<open>checkWinCondition\<close> reports no winner whenever
  some slot has no gate; when every slot has a gate it reports P1 exactly when the root
  value is 1 and P2 exactly when the root value is 0.
\<close>

theorem checkWin_result:
  assumes "length nodes = BOARD_SIZE"
  shows "((\<exists>n \<in> set nodes. gate n = None) \<longrightarrow> checkWinCondition nodes = Inr None)
       \<and> ((\<forall>n \<in> set nodes. gate n \<noteq> None) \<longrightarrow>
             (checkWinCondition nodes = Inr (Some (Won P1)) \<longleftrightarrow> node_value (nodes ! 0) = Some One)
           \<and> (checkWinCondition nodes = Inr (Some (Won P2)) \<longleftrightarrow> node_value (nodes ! 0) = Some Zero))"
proof -
  obtain n0 ns where nodes: "nodes = n0 # ns"
    using assms by (cases nodes) (simp_all add: BOARD_SIZE_def)
  show ?thesis
    unfolding nodes
    by (auto simp add: checkWinCondition_def list_all_iff split: option.splits Bit.splits)
qed

theorem checkWin_result_witness:
  "length wonBoard = BOARD_SIZE \<and> list_all (\<lambda>n. gate n \<noteq> None) wonBoard
   \<and> node_value (wonBoard ! 0) = Some Zero
   \<and> checkWinCondition wonBoard = Inr (Some (Won P2))
   \<and> checkWinCondition wonBoard \<noteq> Inr (Some (Won P1))
   \<and> length scenarioBoard = BOARD_SIZE \<and> (\<exists>n \<in> set scenarioBoard. gate n = None)
   \<and> checkWinCondition scenarioBoard = Inr None"
proof -
  have l1: "length wonBoard = BOARD_SIZE" by (simp add: wonBoard_def BOARD_SIZE_def)
  have f1: "\<forall>n \<in> set wonBoard. gate n \<noteq> None" by (simp add: wonBoard_def)
  have v1: "node_value (wonBoard ! 0) = Some Zero" by (simp add: wonBoard_def)
  have l2: "length scenarioBoard = BOARD_SIZE" by (simp add: scenarioBoard_def BOARD_SIZE_def)
  have f2: "\<exists>n \<in> set scenarioBoard. gate n = None" by (simp add: scenarioBoard_def)
  from checkWin_result [OF l1] f1 v1
  have "checkWinCondition wonBoard = Inr (Some (Won P2))
      \<and> checkWinCondition wonBoard \<noteq> Inr (Some (Won P1))" by simp
  moreover from checkWin_result [OF l2] f2
  have "checkWinCondition scenarioBoard = Inr None" by blast
  ultimately show ?thesis using l1 f1 v1 l2 f2 by (simp add: list_all_iff)
qed

section \<open>A full board has a root value (C7)\<close>

lemma nth_mem_board: "length b = BOARD_SIZE \<Longrightarrow> j < BOARD_SIZE \<Longrightarrow> b ! j \<in> set b"
  by simp

lemma settled_leaf_set:
  "settled ins r i \<Longrightarrow> 3 \<le> i \<Longrightarrow> gate (r ! i) \<noteq> None \<Longrightarrow> node_value (r ! i) \<noteq> None"
  by (auto simp add: settled_def slotValue_def inputAt_def)

lemma settled_inner_set:
  "settled ins r i \<Longrightarrow> i < 3 \<Longrightarrow> gate (r ! i) \<noteq> None \<Longrightarrow>
     node_value (r ! (i * 2 + 1)) \<noteq> None \<Longrightarrow> node_value (r ! (i * 2 + 2)) \<noteq> None \<Longrightarrow>
     node_value (r ! i) \<noteq> None"
  by (auto simp add: settled_def slotValue_def valueOf_def)

lemma full_board_values_set:
  assumes len: "BOARD_SIZE \<le> length r"
    and st: "\<And>j. j < BOARD_SIZE \<Longrightarrow> settled ins r j"
    and g: "\<And>j. j < BOARD_SIZE \<Longrightarrow> gate (r ! j) \<noteq> None"
  shows "node_value (r ! 0) \<noteq> None"
proof -
  have leaf: "node_value (r ! j) \<noteq> None" if "3 \<le> j" "j < BOARD_SIZE" for j
    using settled_leaf_set [OF st [OF that(2)] that(1) g [OF that(2)]] .
  have l: "node_value (r ! 3) \<noteq> None" "node_value (r ! 4) \<noteq> None"
          "node_value (r ! 5) \<noteq> None" "node_value (r ! 6) \<noteq> None"
    using leaf [of 3] leaf [of 4] leaf [of 5] leaf [of 6] by (simp_all add: BOARD_SIZE_def)
  have "node_value (r ! 1) \<noteq> None"
    using settled_inner_set [of ins r 1] st [of 1] g [of 1] l by (simp add: BOARD_SIZE_def)
  moreover have "node_value (r ! 2) \<noteq> None"
    using settled_inner_set [of ins r 2] st [of 2] g [of 2] l by (simp add: BOARD_SIZE_def)
  ultimately show ?thesis
    using settled_inner_set [of ins r 0] st [of 0] g [of 0]
    by (simp add: BOARD_SIZE_def numeral_2_eq_2)
qed

lemma Bit_option_cases: "v \<noteq> None \<Longrightarrow> v = Some Zero \<or> v = Some One"
  by (cases v) (auto intro: Bit.exhaust)

text \<open>
  Claim C7. For a board of seven nodes whose gates are all set, and any input vector,
  \<open>evaluateBoard\<close> returns a board whose root value is 0 or 1, never unset; on that
  board \<open>checkWinCondition\<close> names P1 or P2, so its DRAW branch is not taken.
\<close>

theorem full_board_root_set:
  assumes len: "length b = BOARD_SIZE" and full: "\<forall>n \<in> set b. gate n \<noteq> None"
  shows "\<exists>r. evaluateBoard b ins = Inr r
            \<and> (node_value (r ! 0) = Some Zero \<or> node_value (r ! 0) = Some One)
            \<and> (checkWinCondition r = Inr (Some (Won P1)) \<or> checkWinCondition r = Inr (Some (Won P2)))
            \<and> checkWinCondition r \<noteq> Inr (Some DRAW)"
proof -
  define r where "r = evalLoop BOARD_SIZE ins b"
  have ev: "evaluateBoard b ins = Inr r"
    using len by (simp add: evaluateBoard_Inr r_def)
  have lr: "length r = BOARD_SIZE" using len by (simp add: r_def)
  have gates: "gate (r ! j) \<noteq> None" if "j < BOARD_SIZE" for j
    using that full len nth_mem_board [of b j] by (simp add: r_def)
  have "node_value (r ! 0) \<noteq> None"
  proof (rule full_board_values_set)
    show "BOARD_SIZE \<le> length r" using lr by simp
    show "\<And>j. j < BOARD_SIZE \<Longrightarrow> settled ins r j"
      using len by (simp add: r_def settled_evaluated)
    show "\<And>j. j < BOARD_SIZE \<Longrightarrow> gate (r ! j) \<noteq> None" by (rule gates)
  qed
  then have root: "node_value (r ! 0) = Some Zero \<or> node_value (r ! 0) = Some One"
    by (rule Bit_option_cases)
  have allr: "\<forall>n \<in> set r. gate n \<noteq> None"
    using gates lr by (auto simp add: in_set_conv_nth)
  have win: "checkWinCondition r = Inr (Some (Won P1)) \<or> checkWinCondition r = Inr (Some (Won P2))"
    using checkWin_cases [OF lr allr] root by auto
  then have "checkWinCondition r \<noteq> Inr (Some DRAW)" by auto
  with ev root win show ?thesis by blast
qed

theorem full_board_root_set_witness:
  "length wonBoard = BOARD_SIZE \<and> list_all (\<lambda>n. gate n \<noteq> None) wonBoard
   \<and> evaluateBoard wonBoard altInputs = Inr wonBoard
   \<and> (node_value (wonBoard ! 0) = Some Zero \<or> node_value (wonBoard ! 0) = Some One)
   \<and> checkWinCondition wonBoard \<noteq> Inr (Some DRAW)"
proof -
  have l: "length wonBoard = BOARD_SIZE" by (simp add: wonBoard_def BOARD_SIZE_def)
  have f: "\<forall>n \<in> set wonBoard. gate n \<noteq> None" by (simp add: wonBoard_def)
  have e: "evaluateBoard wonBoard altInputs = Inr wonBoard" by code_simp
  from full_board_root_set [OF l f, of altInputs] e
  have "(node_value (wonBoard ! 0) = Some Zero \<or> node_value (wonBoard ! 0) = Some One)
      \<and> checkWinCondition wonBoard \<noteq> Inr (Some DRAW)" by auto
  with l f e show ?thesis by (simp add: list_all_iff)
qed

section \<open>Every slot of an evaluated board is consistent (C8)\<close>

text \<open>
  Claim C8. After \<open>evaluateBoard\<close> on seven nodes and eight input bits, every slot is
  consistent: its value is unset exactly when its gate is unset or, for a slot below 3,
  the value of child \<open>2i+1\<close> or \<open>2i+2\<close> is unset; otherwise the value is the gate's
  boolean table applied to its operands (input bits \<open>(i-3)*2\<close> and \<open>(i-3)*2+1\<close> for a
  leaf, the children's values for an inner slot). The gates are left as they were.
  Every \<open>executeMove\<close> that returns keeps the board consistent: a placement stores a
  freshly evaluated board, a discard leaves the board alone.
\<close>

theorem evaluated_board_consistent:
  "(length b = BOARD_SIZE \<and> length ins = INITIAL_INPUTS_COUNT \<longrightarrow>
      (\<exists>r. evaluateBoard b ins = Inr r \<and> map gate r = map gate b \<and> boardConsistent ins r))
   \<and> (length (board st) = BOARD_SIZE \<and> length (inputs st) = INITIAL_INPUTS_COUNT
        \<and> boardConsistent (inputs st) (board st)
        \<and> executeMove a p sl g h rnd st = Returned st' \<longrightarrow>
      length (board st') = BOARD_SIZE \<and> inputs st' = inputs st
        \<and> boardConsistent (inputs st') (board st'))"
proof -
  have "\<exists>r. evaluateBoard b ins = Inr r \<and> map gate r = map gate b \<and> boardConsistent ins r"
    if "length b = BOARD_SIZE \<and> length ins = INITIAL_INPUTS_COUNT"
    using that by (simp add: evaluateBoard_Inr map_gate_evalLoop boardConsistent_evaluated)
  then show ?thesis
    using executeMove_consistent [of st a p sl g h rnd st'] by blast
qed

theorem evaluated_board_consistent_witness:
  "length scenarioBoard = BOARD_SIZE \<and> length altInputs = INITIAL_INPUTS_COUNT
   \<and> evaluateBoard (eraseValues scenarioBoard) altInputs = Inr scenarioBoard
   \<and> boardConsistent altInputs scenarioBoard
   \<and> length (board lastSlotState) = BOARD_SIZE
   \<and> length (inputs lastSlotState) = INITIAL_INPUTS_COUNT
   \<and> boardConsistent (inputs lastSlotState) (board lastSlotState)
   \<and> executeMove PLACE P2 (Some (Index 2)) (Some OR) (Some 0) exampleRnd lastSlotState
       = Returned wonState
   \<and> boardConsistent (inputs wonState) (board wonState)"
proof -
  have l: "length (eraseValues scenarioBoard) = BOARD_SIZE" "length scenarioBoard = BOARD_SIZE"
    by (simp_all add: eraseValues_def scenarioBoard_def BOARD_SIZE_def)
  have i: "length altInputs = INITIAL_INPUTS_COUNT"
    by (simp add: altInputs_def INITIAL_INPUTS_COUNT_def)
  have e: "evaluateBoard (eraseValues scenarioBoard) altInputs = Inr scenarioBoard" by code_simp
  from evaluated_board_consistent [where b = "eraseValues scenarioBoard" and ins = altInputs] l i e
  have c: "boardConsistent altInputs scenarioBoard" by auto
  have l2: "length (board lastSlotState) = BOARD_SIZE"
    "length (inputs lastSlotState) = INITIAL_INPUTS_COUNT"
    by (simp_all add: example_defs BOARD_SIZE_def INITIAL_INPUTS_COUNT_def)
  have c2: "boardConsistent (inputs lastSlotState) (board lastSlotState)" by code_simp
  have x: "executeMove PLACE P2 (Some (Index 2)) (Some OR) (Some 0) exampleRnd lastSlotState
       = Returned wonState" by code_simp
  from evaluated_board_consistent [where st = lastSlotState and a = PLACE and p = P2
      and sl = "Some (Index 2)" and g = "Some OR" and h = "Some 0" and rnd = exampleRnd
      and st' = wonState] l2 c2 x
  have "boardConsistent (inputs wonState) (board wonState)" by blast
  with l i e c l2 c2 x show ?thesis by blast
qed

section \<open>Purity, determinism and idempotence of the evaluator (C9)\<close>

subsection \<open>Independence from the value fields\<close>

text \<open>Independence from the value fields the board had before.\<close>

lemma slotValue_leaf_eq:
  "3 \<le> j \<Longrightarrow> gate (r' ! j) = gate (r ! j) \<Longrightarrow> slotValue ins r' j = slotValue ins r j"
  by (rule slotValue_cong) simp_all

lemma settled_values_eq:
  assumes st: "\<And>j. j < BOARD_SIZE \<Longrightarrow> settled ins r j"
    and st': "\<And>j. j < BOARD_SIZE \<Longrightarrow> settled ins r' j"
    and g: "\<And>j. j < BOARD_SIZE \<Longrightarrow> gate (r' ! j) = gate (r ! j)"
    and j: "j < BOARD_SIZE"
  shows "node_value (r' ! j) = node_value (r ! j)"
proof -
  have leaf: "node_value (r' ! i) = node_value (r ! i)" if "3 \<le> i" "i < BOARD_SIZE" for i
    using st [OF that(2)] st' [OF that(2)] slotValue_leaf_eq [OF that(1) g [OF that(2)]]
    by (simp add: settled_def)
  have inner: "node_value (r' ! i) = node_value (r ! i)"
    if "i < 3" "node_value (r' ! (i * 2 + 1)) = node_value (r ! (i * 2 + 1))"
       "node_value (r' ! (i * 2 + 2)) = node_value (r ! (i * 2 + 2))" for i
  proof -
    have i: "i < BOARD_SIZE" using that(1) by (simp add: BOARD_SIZE_def)
    have "slotValue ins r' i = slotValue ins r i"
      using g [OF i] that by (intro slotValue_cong) simp_all
    then show ?thesis using st [OF i] st' [OF i] by (simp add: settled_def)
  qed
  have l: "node_value (r' ! 3) = node_value (r ! 3)" "node_value (r' ! 4) = node_value (r ! 4)"
          "node_value (r' ! 5) = node_value (r ! 5)" "node_value (r' ! 6) = node_value (r ! 6)"
    using leaf [of 3] leaf [of 4] leaf [of 5] leaf [of 6] by (simp_all add: BOARD_SIZE_def)
  have m: "node_value (r' ! 1) = node_value (r ! 1)" "node_value (r' ! 2) = node_value (r ! 2)"
    using inner [of 1] inner [of 2] l by simp_all
  have t: "node_value (r' ! 0) = node_value (r ! 0)"
    using inner [of 0] m by (simp add: numeral_2_eq_2)
  have "j = 0 \<or> j = 1 \<or> j = 2 \<or> j = 3 \<or> j = 4 \<or> j = 5 \<or> j = 6"
    using j by (auto simp add: BOARD_SIZE_def)
  with l m t show ?thesis by auto
qed

lemma eraseValues_nth:
  assumes "eraseValues b' = eraseValues b" and "j < length b"
  shows "gate (b' ! j) = gate (b ! j) \<and> node_id (b' ! j) = node_id (b ! j)"
proof -
  have len: "length b' = length b"
    using assms(1) by (metis eraseValues_def length_map)
  have "eraseValues b' ! j = eraseValues b ! j" using assms(1) by simp
  then have e: "(b' ! j)\<lparr>node_value := None\<rparr> = (b ! j)\<lparr>node_value := None\<rparr>"
    using assms(2) len by (simp add: eraseValues_def)
  have "gate ((b' ! j)\<lparr>node_value := None\<rparr>) = gate ((b ! j)\<lparr>node_value := None\<rparr>)"
       "node_id ((b' ! j)\<lparr>node_value := None\<rparr>) = node_id ((b ! j)\<lparr>node_value := None\<rparr>)"
    using e by simp_all
  then show ?thesis by simp
qed

lemma evalLoop_value_independent:
  assumes len: "length b = BOARD_SIZE" and e: "eraseValues b' = eraseValues b"
  shows "evalLoop BOARD_SIZE ins b' = evalLoop BOARD_SIZE ins b"
proof (rule nth_equalityI)
  have len': "length b' = length b"
    using e by (metis eraseValues_def length_map)
  show "length (evalLoop BOARD_SIZE ins b') = length (evalLoop BOARD_SIZE ins b)"
    using len' by simp
  fix j assume "j < length (evalLoop BOARD_SIZE ins b')"
  then have j: "j < BOARD_SIZE" using len len' by simp
  have "node_value (evalLoop BOARD_SIZE ins b' ! j) = node_value (evalLoop BOARD_SIZE ins b ! j)"
  proof (rule settled_values_eq [OF _ _ _ j])
    show "\<And>j. j < BOARD_SIZE \<Longrightarrow> settled ins (evalLoop BOARD_SIZE ins b) j"
      using len by (simp add: settled_evaluated)
    show "\<And>j. j < BOARD_SIZE \<Longrightarrow> settled ins (evalLoop BOARD_SIZE ins b') j"
      using len len' by (simp add: settled_evaluated)
    show "\<And>j. j < BOARD_SIZE \<Longrightarrow>
        gate (evalLoop BOARD_SIZE ins b' ! j) = gate (evalLoop BOARD_SIZE ins b ! j)"
      using eraseValues_nth [OF e] len by simp
  qed
  moreover have "gate (evalLoop BOARD_SIZE ins b' ! j) = gate (evalLoop BOARD_SIZE ins b ! j)"
    "node_id (evalLoop BOARD_SIZE ins b' ! j) = node_id (evalLoop BOARD_SIZE ins b ! j)"
    using eraseValues_nth [OF e, of j] len j by simp_all
  ultimately show "evalLoop BOARD_SIZE ins b' ! j = evalLoop BOARD_SIZE ins b ! j"
    by (intro BoardNode.equality) simp_all
qed

lemma evaluateBoard_idem_indep:
  assumes "length b = BOARD_SIZE"
  shows "\<exists>r. evaluateBoard b ins = Inr r \<and> evaluateBoard r ins = Inr r
           \<and> (\<forall>b'. eraseValues b' = eraseValues b \<longrightarrow> evaluateBoard b' ins = Inr r)"
proof (intro exI conjI allI impI)
  show "evaluateBoard b ins = Inr (evalLoop BOARD_SIZE ins b)"
    using assms by (simp add: evaluateBoard_Inr)
  show "evaluateBoard (evalLoop BOARD_SIZE ins b) ins = Inr (evalLoop BOARD_SIZE ins b)"
    using assms by (simp add: evaluateBoard_Inr evalLoop_idem)
  fix b' assume e: "eraseValues b' = eraseValues b"
  then have "length b' = length b" by (metis eraseValues_def length_map)
  then show "evaluateBoard b' ins = Inr (evalLoop BOARD_SIZE ins b)"
    using assms evalLoop_value_independent [OF assms e, of ins] by (simp add: evaluateBoard_Inr)
qed

subsection \<open>The run on the store\<close>

lemma readNode_wf:
  assumes "wfArray h a" and "j < length (deref h a)"
  shows "readNode h a j = Inr (deref h a ! j)"
proof -
  from assms(1) obtain refs where refs: "arrays h a = Some refs"
    "list_all (\<lambda>r. r < nextRef h \<and> objects h r \<noteq> None) refs"
    by (auto simp add: wfArray_def split: option.splits)
  have j: "j < length refs" using assms(2) refs(1) by (simp add: deref_def)
  then have "objects h (refs ! j) \<noteq> None" using refs(2) by (simp add: list_all_length)
  then show ?thesis using refs(1) j by (auto simp add: readNode_def deref_def)
qed

lemma writeNew_props:
  assumes wf: "wfArray h a" and i: "i < length (deref h a)"
  shows "deref (writeNew h a i n) a = (deref h a)[i := n]"
    and "wfArray (writeNew h a i n) a"
    and "nextRef (writeNew h a i n) = Suc (nextRef h)"
    and "\<And>r. r < nextRef h \<Longrightarrow> objects (writeNew h a i n) r = objects h r"
    and "\<And>r. r \<noteq> a \<Longrightarrow> arrays (writeNew h a i n) r = arrays h r"
proof -
  from wf obtain refs where refs: "arrays h a = Some refs"
    "list_all (\<lambda>r. r < nextRef h \<and> objects h r \<noteq> None) refs" and a: "a < nextRef h"
    by (auto simp add: wfArray_def split: option.splits)
  have il: "i < length refs" using i refs(1) by (simp add: deref_def)
  have old: "\<And>r. r \<in> set refs \<Longrightarrow> r < nextRef h \<and> objects h r \<noteq> None"
    using refs(2) by (simp add: list_all_iff)
  show "deref (writeNew h a i n) a = (deref h a)[i := n]"
  proof (rule nth_equalityI)
    show "length (deref (writeNew h a i n) a) = length ((deref h a)[i := n])"
      using refs(1) by (simp add: deref_def writeNew_def Let_def)
    fix j assume "j < length (deref (writeNew h a i n) a)"
    then have j: "j < length refs" using refs(1) by (simp add: deref_def writeNew_def Let_def)
    then have "refs ! j < nextRef h" using old by simp
    then show "deref (writeNew h a i n) a ! j = (deref h a)[i := n] ! j"
      using refs(1) j il by (cases "j = i") (simp_all add: deref_def writeNew_def Let_def)
  qed
  show "wfArray (writeNew h a i n) a"
  proof -
    have "\<forall>r \<in> set (refs[i := nextRef h]).
        r < Suc (nextRef h) \<and> ((objects h)(nextRef h \<mapsto> n)) r \<noteq> None"
    proof
      fix r assume "r \<in> set (refs[i := nextRef h])"
      then have "r = nextRef h \<or> r \<in> set refs"
        using set_update_subset_insert [of refs i "nextRef h"] by auto
      then show "r < Suc (nextRef h) \<and> ((objects h)(nextRef h \<mapsto> n)) r \<noteq> None"
        using old by (auto simp add: less_Suc_eq)
    qed
    then show ?thesis
      using refs(1) a by (simp add: wfArray_def writeNew_def Let_def list_all_iff)
  qed
  show "nextRef (writeNew h a i n) = Suc (nextRef h)"
    by (simp add: writeNew_def Let_def)
  show "\<And>r. r < nextRef h \<Longrightarrow> objects (writeNew h a i n) r = objects h r"
    by (simp add: writeNew_def Let_def)
  show "\<And>r. r \<noteq> a \<Longrightarrow> arrays (writeNew h a i n) r = arrays h r"
    by (simp add: writeNew_def Let_def)
qed

lemma evalSlotH_refines:
  assumes wf: "wfArray h a" and len: "BOARD_SIZE \<le> length (deref h a)" and i: "i < BOARD_SIZE"
  shows "\<exists>h'. evalSlotH ins i a h = Inr h'
           \<and> deref h' a = evalSlot ins i (deref h a)
           \<and> wfArray h' a \<and> nextRef h \<le> nextRef h'
           \<and> (\<forall>r < nextRef h. objects h' r = objects h r)
           \<and> (\<forall>r. r \<noteq> a \<longrightarrow> arrays h' r = arrays h r)"
proof -
  let ?b = "deref h a"
  let ?n = "(?b ! i)\<lparr>node_value := slotValue ins ?b i\<rparr>"
  have il: "i < length ?b" using len i by simp
  have rd: "readNode h a i = Inr (?b ! i)" using wf il by (rule readNode_wf)
  have ch: "readNode h a (i * 2 + 1) = Inr (?b ! (i * 2 + 1))"
           "readNode h a (i * 2 + 2) = Inr (?b ! (i * 2 + 2))" if "\<not> 3 \<le> i"
    using that len by (simp_all add: readNode_wf [OF wf] BOARD_SIZE_def)
  have "evalSlotH ins i a h = Inr (writeNew h a i ?n)"
    using rd ch by (auto simp add: evalSlotH_def slotValue_def Let_def split: option.splits)
  then show ?thesis
    using writeNew_props [OF wf il, where n = ?n] by (simp add: evalSlot_eq)
qed

lemma evalLoopH_refines:
  assumes "wfArray h a" and "BOARD_SIZE \<le> length (deref h a)" and "k \<le> BOARD_SIZE"
  shows "\<exists>h'. evalLoopH k ins a h = Inr h'
           \<and> deref h' a = evalLoop k ins (deref h a)
           \<and> wfArray h' a \<and> nextRef h \<le> nextRef h'
           \<and> (\<forall>r < nextRef h. objects h' r = objects h r)
           \<and> (\<forall>r. r \<noteq> a \<longrightarrow> arrays h' r = arrays h r)"
  using assms
proof (induction k arbitrary: h)
  case 0
  then show ?case by simp
next
  case (Suc k)
  from Suc.prems have k: "k < BOARD_SIZE" by simp
  from evalSlotH_refines [OF Suc.prems(1,2) k, of ins]
  obtain h1 where h1: "evalSlotH ins k a h = Inr h1"
    "deref h1 a = evalSlot ins k (deref h a)" "wfArray h1 a" "nextRef h \<le> nextRef h1"
    "\<forall>r < nextRef h. objects h1 r = objects h r" "\<forall>r. r \<noteq> a \<longrightarrow> arrays h1 r = arrays h r"
    by blast
  have len1: "BOARD_SIZE \<le> length (deref h1 a)" using h1(2) Suc.prems(2) by simp
  from Suc.IH [OF h1(3) len1] k
  obtain h' where h': "evalLoopH k ins a h1 = Inr h'"
    "deref h' a = evalLoop k ins (deref h1 a)" "wfArray h' a" "nextRef h1 \<le> nextRef h'"
    "\<forall>r < nextRef h1. objects h' r = objects h1 r" "\<forall>r. r \<noteq> a \<longrightarrow> arrays h' r = arrays h1 r"
    by auto
  have "evalLoopH (Suc k) ins a h = Inr h'" using h1(1) h'(1) by simp
  moreover have "deref h' a = evalLoop (Suc k) ins (deref h a)" using h1(2) h'(2) by simp
  moreover have "nextRef h \<le> nextRef h'" using h1(4) h'(4) by simp
  moreover have "\<forall>r < nextRef h. objects h' r = objects h r"
    using h1(4,5) h'(5) by auto
  moreover have "\<forall>r. r \<noteq> a \<longrightarrow> arrays h' r = arrays h r" using h1(6) h'(6) by simp
  ultimately show ?case using h'(3) by blast
qed

lemma evaluateBoardH_refines:
  assumes wf: "wfArray h a" and len: "BOARD_SIZE \<le> length (deref h a)"
  shows "\<exists>h' a'. evaluateBoardH a ins h = Inr (h', a')
           \<and> evaluateBoard (deref h a) ins = Inr (deref h' a')
           \<and> preserved h h' \<and> deref h' a = deref h a \<and> a' \<noteq> a"
proof -
  from wf obtain refs where refs: "arrays h a = Some refs"
    "list_all (\<lambda>r. r < nextRef h \<and> objects h r \<noteq> None) refs" and a: "a < nextRef h"
    by (auto simp add: wfArray_def split: option.splits)
  let ?a' = "nextRef h"
  let ?h1 = "h\<lparr>arrays := (arrays h)(?a' \<mapsto> refs), nextRef := Suc ?a'\<rparr>"
  have d1: "deref ?h1 ?a' = deref h a" using refs(1) by (simp add: deref_def)
  have wf1: "wfArray ?h1 ?a'"
    using refs(2) by (auto simp add: wfArray_def list_all_iff)
  have len1: "BOARD_SIZE \<le> length (deref ?h1 ?a')" using d1 len by simp
  from evalLoopH_refines [OF wf1 len1, of BOARD_SIZE ins]
  obtain h' where h': "evalLoopH BOARD_SIZE ins ?a' ?h1 = Inr h'"
    "deref h' ?a' = evalLoop BOARD_SIZE ins (deref ?h1 ?a')"
    "nextRef ?h1 \<le> nextRef h'"
    "\<forall>r < nextRef ?h1. objects h' r = objects ?h1 r" "\<forall>r. r \<noteq> ?a' \<longrightarrow> arrays h' r = arrays ?h1 r"
    by auto
  have ev: "evaluateBoardH a ins h = Inr (h', ?a')"
    using refs(1) h'(1) by (simp add: evaluateBoardH_def Let_def)
  have pure: "evaluateBoard (deref h a) ins = Inr (deref h' ?a')"
    using len h'(2) d1 by (simp add: evaluateBoard_Inr)
  have ob: "\<forall>r < nextRef h. objects h' r = objects h r" using h'(4) by simp
  have ar: "\<forall>r < nextRef h. arrays h' r = arrays h r" using h'(5) by simp
  have pr: "preserved h h'" using h'(3) ob ar by (simp add: preserved_def)
  have "arrays h' a = arrays h a" using ar a by simp
  moreover have "\<forall>r \<in> set refs. objects h' r = objects h r"
    using ob refs(2) by (simp add: list_all_iff)
  ultimately have same: "deref h' a = deref h a"
    using refs(1) by (simp add: deref_def)
  from ev pure pr same a show ?thesis by blast
qed

text \<open>
  Claim C9. \<open>evaluateBoard\<close> is a function of the board and the inputs (deterministic);
  evaluating an evaluated board returns it unchanged (idempotent); the result does not
  depend on the value fields the argument had: any board that differs from \<open>b\<close> in
  value fields only evaluates to the same result. On the store, the run returns a new
  array, computes what the function computes, and writes to no array or object that
  existed before: the argument array and its nodes read as they did (pure).
\<close>

theorem evaluateBoard_pure_idempotent:
  "(length b = BOARD_SIZE \<longrightarrow>
      (\<exists>r. evaluateBoard b ins = Inr r \<and> evaluateBoard r ins = Inr r
           \<and> (\<forall>b'. eraseValues b' = eraseValues b \<longrightarrow> evaluateBoard b' ins = Inr r)))
   \<and> (wfArray h a \<and> length (deref h a) = BOARD_SIZE \<longrightarrow>
      (\<exists>h' a'. evaluateBoardH a ins h = Inr (h', a')
           \<and> evaluateBoard (deref h a) ins = Inr (deref h' a')
           \<and> preserved h h' \<and> deref h' a = deref h a \<and> a' \<noteq> a))"
proof (intro conjI impI)
  assume "length b = BOARD_SIZE"
  then show "\<exists>r. evaluateBoard b ins = Inr r \<and> evaluateBoard r ins = Inr r
           \<and> (\<forall>b'. eraseValues b' = eraseValues b \<longrightarrow> evaluateBoard b' ins = Inr r)"
    by (rule evaluateBoard_idem_indep)
next
  assume "wfArray h a \<and> length (deref h a) = BOARD_SIZE"
  then have "wfArray h a" "BOARD_SIZE \<le> length (deref h a)" by simp_all
  then show "\<exists>h' a'. evaluateBoardH a ins h = Inr (h', a')
           \<and> evaluateBoard (deref h a) ins = Inr (deref h' a')
           \<and> preserved h h' \<and> deref h' a = deref h a \<and> a' \<noteq> a"
    by (rule evaluateBoardH_refines)
qed

theorem evaluateBoard_pure_idempotent_witness:
  "length scenarioBoard = BOARD_SIZE
   \<and> evaluateBoard scenarioBoard altInputs = Inr scenarioBoard
   \<and> eraseValues (eraseValues scenarioBoard) = eraseValues scenarioBoard
   \<and> eraseValues scenarioBoard \<noteq> scenarioBoard
   \<and> evaluateBoard (eraseValues scenarioBoard) altInputs = Inr scenarioBoard
   \<and> wfArray exampleHeap 7
   \<and> deref exampleHeap 7 = eraseValues scenarioBoard
   \<and> (\<exists>h' a'. evaluateBoardH 7 altInputs exampleHeap = Inr (h', a')
          \<and> deref h' a' = scenarioBoard
          \<and> deref h' 7 = eraseValues scenarioBoard)"
proof -
  have l: "length scenarioBoard = BOARD_SIZE" by (simp add: scenarioBoard_def BOARD_SIZE_def)
  have e: "eraseValues (eraseValues scenarioBoard) = eraseValues scenarioBoard"
    by (simp add: eraseValues_def)
  have d: "eraseValues scenarioBoard \<noteq> scenarioBoard"
    by (simp add: eraseValues_def scenarioBoard_def)
  have v: "evaluateBoard scenarioBoard altInputs = Inr scenarioBoard" by code_simp
  from evaluateBoard_pure_idempotent [where b = scenarioBoard and ins = altInputs] l v e
  have i: "evaluateBoard (eraseValues scenarioBoard) altInputs = Inr scenarioBoard" by auto
  have w: "wfArray exampleHeap 7" by code_simp
  have f: "deref exampleHeap 7 = eraseValues scenarioBoard" by code_simp
  have lf: "length (deref exampleHeap 7) = BOARD_SIZE"
    using f l by (simp add: eraseValues_def)
  from evaluateBoard_pure_idempotent [where h = exampleHeap and a = 7 and ins = altInputs] w lf
  obtain h' a' where h': "evaluateBoardH 7 altInputs exampleHeap = Inr (h', a')"
    "evaluateBoard (deref exampleHeap 7) altInputs = Inr (deref h' a')"
    "deref h' 7 = deref exampleHeap 7"
    by blast
  from h'(2) f i have "deref h' a' = scenarioBoard" by simp
  with h'(1,3) f have "\<exists>h' a'. evaluateBoardH 7 altInputs exampleHeap = Inr (h', a')
          \<and> deref h' a' = scenarioBoard
          \<and> deref h' 7 = eraseValues scenarioBoard" by auto
  with l v e d i w f show ?thesis by blast
qed

section \<open>The hand after a placement (C3)\<close>

text \<open>
  Claim C3, amended. A placement that does not end the game leaves the acting player's
  hand at three cards: the card at the played index (an instance of the placed gate) is
  removed and one drawn gate is appended. A placement that sets the winner returns
  before the hand is touched: the hand is as it was, the placed gate still in it.
\<close>

theorem placeGate_hand:
  assumes "length (hand (getPlayer (players st) p)) = 3" and "h < 3"
    and "hand (getPlayer (players st) p) ! h = g" and "winner st = None"
    and "executeMove PLACE p (Some k) (Some g) (Some h) rnd st = Returned st'"
  shows "(winner st' = None \<longrightarrow>
            hand (getPlayer (players st') p) = splice1 (hand (getPlayer (players st) p)) h @ [rnd 0]
          \<and> length (hand (getPlayer (players st') p)) = 3
          \<and> mset (hand (getPlayer (players st') p)) + {#g#}
              = mset (hand (getPlayer (players st) p)) + {#rnd 0#})
       \<and> (winner st' \<noteq> None \<longrightarrow>
            hand (getPlayer (players st') p) = hand (getPlayer (players st) p))"
proof -
  let ?h = "hand (getPlayer (players st) p)"
  have l: "length (splice1 ?h h) = 2" using assms(1,2) by (simp add: length_splice1)
  have d: "drawUp (splice1 ?h h) rnd 0 = splice1 ?h h @ [rnd 0]"
    using l by (rule drawUp_two)
  have m: "mset (splice1 ?h h) + {#g#} = mset ?h"
    using mset_splice1 [of h ?h] assms(1,2,3) by simp
  have "mset (splice1 ?h h @ [rnd 0]) + {#g#} = mset ?h + {#rnd 0#}"
    using m by (simp add: ac_simps)
  with executeMove_PLACE_hand [OF assms(5,4)] d l show ?thesis by simp
qed

theorem placeGate_hand_witness:
  "length (hand (getPlayer (players humanState) P1)) = 3
   \<and> hand (getPlayer (players humanState) P1) ! 1 = NOR
   \<and> winner humanState = None
   \<and> executeMove PLACE P1 (Some (Index 2)) (Some NOR) (Some 1) exampleRnd humanState
       = Returned afterHumanMove
   \<and> winner afterHumanMove = None
   \<and> hand (getPlayer (players afterHumanMove) P1) = [AND, AND, NOR]
   \<and> length (hand (getPlayer (players lastSlotState) P2)) = 3
   \<and> hand (getPlayer (players lastSlotState) P2) ! 0 = OR
   \<and> winner lastSlotState = None
   \<and> executeMove PLACE P2 (Some (Index 2)) (Some OR) (Some 0) exampleRnd lastSlotState
       = Returned wonState
   \<and> winner wonState = Some (Won P2)
   \<and> hand (getPlayer (players wonState) P2) = [OR, XOR, NAND]"
proof -
  have a: "length (hand (getPlayer (players humanState) P1)) = 3"
    "hand (getPlayer (players humanState) P1) ! 1 = NOR" "winner humanState = None"
    "winner afterHumanMove = None"
    by (simp_all add: humanState_def afterHumanMove_def example_defs)
  have b: "length (hand (getPlayer (players lastSlotState) P2)) = 3"
    "hand (getPlayer (players lastSlotState) P2) ! 0 = OR" "winner lastSlotState = None"
    "winner wonState = Some (Won P2)"
    by (simp_all add: example_defs)
  have s: "splice1 (hand (getPlayer (players humanState) P1)) 1 @ [exampleRnd 0] = [AND, AND, NOR]"
    by code_simp
  from placeGate_hand [OF a(1) _ a(2) a(3) human_placement] a(4) s
  have c: "hand (getPlayer (players afterHumanMove) P1) = [AND, AND, NOR]" by simp
  have o: "hand (getPlayer (players lastSlotState) P2) = [OR, XOR, NAND]"
    by (simp add: example_defs)
  from placeGate_hand [OF b(1) _ b(2) b(3) lastSlot_placement] b(4) o
  have d: "hand (getPlayer (players wonState) P2) = [OR, XOR, NAND]" by simp
  from a b c d human_placement lastSlot_placement show ?thesis by blast
qed

text \<open>
  The claim as stated fails on the placement that ends the game: P2 plays the OR at hand
  index 0 on the last empty slot, wins, and still holds [OR, XOR, NAND].
\<close>

theorem placeGate_hand_on_win_counterexample:
  "winner lastSlotState = None
   \<and> hand (getPlayer (players lastSlotState) P2) = [OR, XOR, NAND]
   \<and> executeMove PLACE P2 (Some (Index 2)) (Some OR) (Some 0) exampleRnd lastSlotState
       = Returned wonState
   \<and> winner wonState = Some (Won P2)
   \<and> hand (getPlayer (players wonState) P2) = [OR, XOR, NAND]
   \<and> take 2 (hand (getPlayer (players wonState) P2))
       \<noteq> remove1 OR (hand (getPlayer (players lastSlotState) P2))"
  using lastSlot_placement by (simp add: example_defs)

section \<open>A placement applied directly (C5)\<close>

text \<open>
  Claim C5, amended. \<open>executeMove\<close> checks no precondition of a placement and has no
  \<open>InvalidMove\<close> outcome: on a seven-node board and a slot in [0,6] it returns normally,
  whatever the winner field, the slot's present gate and the hand are; the slot's gate
  is set (overwritten if there was one), without repair, and the board stored is the
  evaluation of the board so changed.
\<close>

theorem placeGate_checks_nothing:
  assumes "length (board st) = BOARD_SIZE" and "0 \<le> i" and "i < int BOARD_SIZE"
  shows "\<exists>st'. executeMove PLACE p (Some (Index i)) (Some g) (Some h) rnd st = Returned st'
           \<and> gate (board st' ! nat i) = Some g
           \<and> evaluateBoard ((board st)[nat i := (board st ! nat i)\<lparr>gate := Some g\<rparr>]) (inputs st)
               = Inr (board st')"
proof -
  let ?nb = "(board st)[nat i := (board st ! nat i)\<lparr>gate := Some g\<rparr>]"
  have i: "nat i < length (board st)" using assms by simp
  have sg: "setGate (board st) (Index i) g = Some ?nb"
    using assms i by (simp add: setGate_def)
  have len: "BOARD_SIZE \<le> length (board st)" using assms(1) by simp
  have g: "gate (evalLoop BOARD_SIZE (inputs st) ?nb ! nat i) = Some g"
    using i by simp
  have e: "evaluateBoard ?nb (inputs st) = Inr (evalLoop BOARD_SIZE (inputs st) ?nb)"
    using assms(1) by (simp add: evaluateBoard_Inr)
  show ?thesis
    using executeMove_PLACE [OF len sg, of p h rnd] g e
    by (auto split: sum.splits option.splits)
qed

theorem placeGate_checks_nothing_witness:
  "length (board scenarioState) = BOARD_SIZE
   \<and> gate (board scenarioState ! 0) = Some XOR
   \<and> executeMove PLACE P2 (Some (Index 0)) (Some OR) (Some 0) exampleRnd scenarioState
       = Returned overwrittenState
   \<and> gate (board overwrittenState ! nat 0) = Some OR
   \<and> evaluateBoard ((board scenarioState)[nat 0 := (board scenarioState ! nat 0)\<lparr>gate := Some OR\<rparr>])
        (inputs scenarioState) = Inr (board overwrittenState)"
proof -
  have l: "length (board scenarioState) = BOARD_SIZE"
    by (simp add: example_defs BOARD_SIZE_def)
  have i: "(0::int) \<le> 0" "(0::int) < int BOARD_SIZE" by (simp_all add: BOARD_SIZE_def)
  have x: "gate (board scenarioState ! 0) = Some XOR" by (simp add: example_defs)
  from placeGate_checks_nothing [OF l i, of P2 OR 0 exampleRnd] overwriting_placement
  have "gate (board overwrittenState ! nat 0) = Some OR
    \<and> evaluateBoard ((board scenarioState)[nat 0 := (board scenarioState ! nat 0)\<lparr>gate := Some OR\<rparr>])
        (inputs scenarioState) = Inr (board overwrittenState)" by auto
  with l x overwriting_placement show ?thesis by blast
qed

text \<open>
  The claim as stated fails: a direct placement on the occupied root slot returns
  normally and replaces the XOR there by an OR.
\<close>

theorem placeGate_no_InvalidMove_counterexample:
  "winner scenarioState = None
   \<and> gate (board scenarioState ! 0) = Some XOR
   \<and> executeMove PLACE P2 (Some (Index 0)) (Some OR) (Some 0) exampleRnd scenarioState
       = Returned overwrittenState
   \<and> gate (board overwrittenState ! 0) = Some OR
   \<and> overwrittenState \<noteq> scenarioState"
proof -
  have "turn overwrittenState \<noteq> turn scenarioState"
    by (simp add: overwrittenState_def scenarioState_def)
  then have "overwrittenState \<noteq> scenarioState" by auto
  then show ?thesis
    using overwriting_placement by (simp add: overwrittenState_def example_defs)
qed

section \<open>A won game is terminal (C10)\<close>

text \<open>
  Claim C10. Once the winner is set, every handler that could apply an action (a slot
  click, the discard button, the automated player's effect, a card selection) returns
  with the state unchanged; only \<open>startGame\<close> clears the winner. A placement that sets
  the winner leaves \<open>turn\<close> on the player who made it.
\<close>

theorem won_state_is_terminal:
  "(winner st \<noteq> None \<longrightarrow>
      handleSlotClick sl rnd st = Returned st \<and> handleDiscardHand rnd st = Returned st
      \<and> aiTurnEffect proposal rnd st = Returned st \<and> handleCardSelect k st = st)
   \<and> (winner st = None \<and> executeMove a p key g h rnd st = Returned st' \<and> winner st' \<noteq> None \<longrightarrow>
      turn st' = turn st)
   \<and> winner (startGame aiMode newInputs rnd1 rnd2 st) = None"
proof -
  have "turn st' = turn st"
    if "winner st = None \<and> executeMove a p key g h rnd st = Returned st' \<and> winner st' \<noteq> None"
    using that executeMove_win_keeps_turn [of a p key g h rnd st st'] by simp
  then show ?thesis
    by (auto simp add: handleSlotClick_def handleDiscardHand_def aiTurnEffect_def
        handleCardSelect_def startGame_def)
qed

theorem won_state_is_terminal_witness:
  "winner wonState \<noteq> None
   \<and> handleSlotClick 2 exampleRnd wonState = Returned wonState
   \<and> handleDiscardHand exampleRnd wonState = Returned wonState
   \<and> aiTurnEffect None exampleRnd wonState = Returned wonState
   \<and> winner lastSlotState = None
   \<and> executeMove PLACE P2 (Some (Index 2)) (Some OR) (Some 0) exampleRnd lastSlotState
       = Returned wonState
   \<and> turn wonState = turn lastSlotState"
proof -
  have w: "winner wonState \<noteq> None" by (simp add: wonState_def)
  have n: "winner lastSlotState = None" by (simp add: lastSlotState_def scenarioState_def)
  have e: "executeMove PLACE P2 (Some (Index 2)) (Some OR) (Some 0) exampleRnd lastSlotState
       = Returned wonState"
    by code_simp
  from won_state_is_terminal [where st = wonState and sl = 2 and rnd = exampleRnd
      and proposal = None] w
  have t: "handleSlotClick 2 exampleRnd wonState = Returned wonState
      \<and> handleDiscardHand exampleRnd wonState = Returned wonState
      \<and> aiTurnEffect None exampleRnd wonState = Returned wonState" by blast
  from won_state_is_terminal [where st = lastSlotState and a = PLACE and p = P2
      and key = "Some (Index 2)" and g = "Some OR" and h = "Some 0" and rnd = exampleRnd
      and st' = wonState] w n e
  have "turn wonState = turn lastSlotState" by blast
  with w n e t show ?thesis by blast
qed

section \<open>How the automated player's proposal is resolved (C1, C2)\<close>

lemma indexOf_Some: "indexOf xs x = Some j \<Longrightarrow> j < length xs \<and> xs ! j = x"
proof (induction xs arbitrary: j)
  case Nil
  then show ?case by simp
next
  case (Cons y ys)
  then show ?case by (cases "y = x") auto
qed

lemma indexOf_None: "indexOf xs x = None \<longleftrightarrow> x \<notin> set xs"
  by (induction xs) auto

lemma validIdxOf_found:
  "s \<in> gateName ` set h \<Longrightarrow> validIdxOf h s < length h \<and> gateName (h ! validIdxOf h s) = s"
proof -
  assume "s \<in> gateName ` set h"
  then have "indexOf (map gateName h) s \<noteq> None" by (simp add: indexOf_None)
  then obtain j where j: "indexOf (map gateName h) s = Some j" by auto
  from indexOf_Some [OF j] j show ?thesis by (auto simp add: validIdxOf_def)
qed

lemma validIdxOf_missing: "s \<notin> gateName ` set h \<Longrightarrow> validIdxOf h s = 0"
proof -
  assume "s \<notin> gateName ` set h"
  then have "indexOf (map gateName h) s = None" by (simp add: indexOf_None)
  then show ?thesis by (simp add: validIdxOf_def)
qed

lemma validIdxOf_less: "h \<noteq> [] \<Longrightarrow> validIdxOf h s < length h"
  using validIdxOf_found [of s h] validIdxOf_missing [of s h] by (cases "s \<in> gateName ` set h") auto

lemma nodeAt_in_range:
  "length b = BOARD_SIZE \<Longrightarrow> 0 \<le> i \<Longrightarrow> i < int BOARD_SIZE \<Longrightarrow> nodeAt b i = Some (b ! nat i)"
  by (simp add: nodeAt_def)

lemma nodeAt_out_of_range:
  "length b = BOARD_SIZE \<Longrightarrow> i < 0 \<or> int BOARD_SIZE \<le> i \<Longrightarrow> nodeAt b i = None"
  by (auto simp add: nodeAt_def)

text \<open>The \<^verbatim>\<open>try\<close> block, by the shape of the proposal.\<close>

lemma aiTry_malformed:
  assumes "actionType m \<noteq> ''DISCARD''"
    and "slotId m = None \<or> gateType m = None \<or> gateType m = Some []
         \<or> (\<exists>i. slotId m = Some i \<and> nodeAt (board st) i = None)"
  shows "\<exists>e. aiTry (Some m) rnd st = Threw e st"
  using assms by (auto simp add: aiTry_def)

lemma aiTry_empty_slot:
  assumes "actionType m \<noteq> ''DISCARD''" and "slotId m = Some i" and "gateType m = Some s"
    and "s \<noteq> []" and "nodeAt (board st) i = Some n" and "gate n = None"
    and "hand (getPlayer (players st) P2) \<noteq> []"
  shows "aiTry (Some m) rnd st =
           executeMove PLACE P2 (Some (Index i))
             (Some (hand (getPlayer (players st) P2) ! validIdxOf (hand (getPlayer (players st) P2)) s))
             (Some (validIdxOf (hand (getPlayer (players st) P2)) s)) rnd st"
proof -
  let ?h = "hand (getPlayer (players st) P2)"
  have l: "validIdxOf ?h s < length ?h" using assms(7) by (rule validIdxOf_less)
  have z: "0 < length ?h" using assms(7) by simp
  show ?thesis
  proof (cases "indexOf (map gateName ?h) s")
    case None
    then show ?thesis
      using assms z by (simp add: aiTry_def validIdxOf_def cardAt_def Let_def)
  next
    case (Some j)
    then have "j < length ?h" using indexOf_Some [OF Some] by auto
    then show ?thesis
      using assms Some by (simp add: aiTry_def validIdxOf_def cardAt_def Let_def)
  qed
qed

lemma proposal99_discards:
  "performAIMove (Some proposal99) exampleRnd scenarioState = Returned discardedState"
  by code_simp

lemma proposalSlot2_places:
  "performAIMove (Some proposalSlot2) exampleRnd scenarioState = Returned afterSubstitution"
  by code_simp

text \<open>
  Claim C1, amended. For a proposal whose tag is not DISCARD, on a seven-node board:
  when \<open>slotId\<close> is absent or outside [0,6], or \<open>gateType\<close> is absent or empty, the turn
  resolves to a discard of P2's hand (three drawn gates, board untouched, turn passed to
  P1); when \<open>slotId\<close> is an empty slot in [0,6] and \<open>gateType\<close> is present, the turn
  resolves to a placement at that very slot, of the proposed gate if the hand holds it and
  of the first card of the hand otherwise. What happens for an occupied slot is not part
  of this statement.
\<close>

theorem place_proposal_resolution:
  assumes tag: "actionType m \<noteq> ''DISCARD''" and len: "length (board st) = BOARD_SIZE"
  shows "((slotId m = None \<or> gateType m = None \<or> gateType m = Some []
            \<or> (\<exists>i. slotId m = Some i \<and> (i < 0 \<or> int BOARD_SIZE \<le> i))) \<longrightarrow>
          performAIMove (Some m) rnd st =
            Returned (st\<lparr>players := setHand (players st) P2 [rnd 0, rnd 1, rnd 2],
                         selectedCardIndex := None, turn := P1, isThinking := False\<rparr>))
       \<and> (\<forall>i s. slotId m = Some i \<and> 0 \<le> i \<and> i < int BOARD_SIZE
              \<and> gate (board st ! nat i) = None \<and> gateType m = Some s \<and> s \<noteq> []
              \<and> hand (getPlayer (players st) P2) \<noteq> [] \<longrightarrow>
            (let h = hand (getPlayer (players st) P2); j = validIdxOf h s in
               performAIMove (Some m) rnd st =
                 executeMove PLACE P2 (Some (Index i)) (Some (h ! j)) (Some j) rnd
                   (st\<lparr>isThinking := True\<rparr>)
               \<and> (s \<in> gateName ` set h \<longrightarrow> gateName (h ! j) = s)
               \<and> (s \<notin> gateName ` set h \<longrightarrow> j = 0)
               \<and> (\<exists>st'. performAIMove (Some m) rnd st = Returned st'
                          \<and> gate (board st' ! nat i) = Some (h ! j))))"
proof (intro conjI impI allI)
  let ?st1 = "st\<lparr>isThinking := True\<rparr>"
  assume a: "slotId m = None \<or> gateType m = None \<or> gateType m = Some []
            \<or> (\<exists>i. slotId m = Some i \<and> (i < 0 \<or> int BOARD_SIZE \<le> i))"
  have "slotId m = None \<or> gateType m = None \<or> gateType m = Some []
         \<or> (\<exists>i. slotId m = Some i \<and> nodeAt (board ?st1) i = None)"
    using a len nodeAt_out_of_range [of "board st"] by auto
  from aiTry_malformed [OF tag this]
  obtain e where e: "aiTry (Some m) rnd ?st1 = Threw e ?st1" by blast
  have ne: "board ?st1 \<noteq> []" using len by (auto simp add: BOARD_SIZE_def)
  show "performAIMove (Some m) rnd st =
            Returned (st\<lparr>players := setHand (players st) P2 [rnd 0, rnd 1, rnd 2],
                         selectedCardIndex := None, turn := P1, isThinking := False\<rparr>)"
    using e executeMove_DISCARD [OF ne, of P2 None None None rnd]
    by (simp add: performAIMove_def)
next
  fix i s
  let ?st1 = "st\<lparr>isThinking := True\<rparr>"
  let ?h = "hand (getPlayer (players st) P2)"
  let ?j = "validIdxOf ?h s"
  assume a: "slotId m = Some i \<and> 0 \<le> i \<and> i < int BOARD_SIZE
              \<and> gate (board st ! nat i) = None \<and> gateType m = Some s \<and> s \<noteq> []
              \<and> hand (getPlayer (players st) P2) \<noteq> []"
  then have a: "slotId m = Some i" "0 \<le> i" "i < int BOARD_SIZE"
    "gate (board st ! nat i) = None" "gateType m = Some s" "s \<noteq> []"
    "hand (getPlayer (players st) P2) \<noteq> []"
    by simp_all
  have n: "nodeAt (board ?st1) i = Some (board st ! nat i)"
    using a len nodeAt_in_range [of "board st" i] by simp
  have t: "aiTry (Some m) rnd ?st1 =
      executeMove PLACE P2 (Some (Index i)) (Some (?h ! ?j)) (Some ?j) rnd ?st1"
    using aiTry_empty_slot [OF tag _ _ _ n, of s rnd] a by simp
  let ?nb = "(board st)[nat i := (board st ! nat i)\<lparr>gate := Some (?h ! ?j)\<rparr>]"
  have sg: "setGate (board ?st1) (Index i) (?h ! ?j) = Some ?nb"
    using a len by (simp add: setGate_def)
  have l7: "BOARD_SIZE \<le> length (board ?st1)" using len by simp
  have i: "nat i < length (board st)" using a(2,3) len by simp
  have g: "gate (evalLoop BOARD_SIZE (inputs st) ?nb ! nat i) = Some (?h ! ?j)"
    using i by simp
  from executeMove_PLACE [OF l7 sg, of P2 ?j rnd] g
  obtain st' where st': "executeMove PLACE P2 (Some (Index i)) (Some (?h ! ?j)) (Some ?j) rnd ?st1
      = Returned st'" "gate (board st' ! nat i) = Some (?h ! ?j)"
    by (auto split: sum.splits option.splits)
  have p: "performAIMove (Some m) rnd st =
      executeMove PLACE P2 (Some (Index i)) (Some (?h ! ?j)) (Some ?j) rnd ?st1"
    using t st'(1) by (simp add: performAIMove_def)
  show "let h = hand (getPlayer (players st) P2); j = validIdxOf h s in
               performAIMove (Some m) rnd st =
                 executeMove PLACE P2 (Some (Index i)) (Some (h ! j)) (Some j) rnd
                   (st\<lparr>isThinking := True\<rparr>)
               \<and> (s \<in> gateName ` set h \<longrightarrow> gateName (h ! j) = s)
               \<and> (s \<notin> gateName ` set h \<longrightarrow> j = 0)
               \<and> (\<exists>st'. performAIMove (Some m) rnd st = Returned st'
                          \<and> gate (board st' ! nat i) = Some (h ! j))"
    unfolding Let_def
    using p st' validIdxOf_found [of s ?h] validIdxOf_missing [of s ?h] by auto
qed

theorem place_proposal_resolution_witness:
  "actionType proposal99 \<noteq> ''DISCARD'' \<and> length (board scenarioState) = BOARD_SIZE
   \<and> slotId proposal99 = Some 99
   \<and> performAIMove (Some proposal99) exampleRnd scenarioState = Returned discardedState
   \<and> actionType proposalSlot2 \<noteq> ''DISCARD'' \<and> slotId proposalSlot2 = Some 2
   \<and> gate (board scenarioState ! 2) = None \<and> gateType proposalSlot2 = Some ''AND''
   \<and> hand (getPlayer (players scenarioState) P2) = [OR, XOR, NAND]
   \<and> performAIMove (Some proposalSlot2) exampleRnd scenarioState = Returned afterSubstitution
   \<and> gate (board afterSubstitution ! 2) = Some OR"
proof -
  have t: "actionType proposal99 \<noteq> ''DISCARD''" "actionType proposalSlot2 \<noteq> ''DISCARD''"
    by (simp_all add: proposal99_def proposalSlot2_def)
  have l: "length (board scenarioState) = BOARD_SIZE" by (simp add: example_defs BOARD_SIZE_def)
  have s99: "slotId proposal99 = Some 99" by (simp add: proposal99_def)
  have big: "int BOARD_SIZE \<le> 99" by (simp add: BOARD_SIZE_def)
  have d: "scenarioState\<lparr>players := setHand (players scenarioState) P2
             [exampleRnd 0, exampleRnd 1, exampleRnd 2],
             selectedCardIndex := None, turn := P1, isThinking := False\<rparr> = discardedState"
    by (simp add: discardedState_def example_defs)
  from place_proposal_resolution [OF t(1) l, of exampleRnd] s99 big d
  have A: "performAIMove (Some proposal99) exampleRnd scenarioState = Returned discardedState"
    by simp
  have b: "slotId proposalSlot2 = Some 2" "gate (board scenarioState ! 2) = None"
    "gateType proposalSlot2 = Some ''AND''"
    "hand (getPlayer (players scenarioState) P2) = [OR, XOR, NAND]"
    by (simp_all add: proposalSlot2_def example_defs)
  have r: "(0::int) \<le> 2" "(2::int) < int BOARD_SIZE" "''AND'' \<noteq> []"
    "hand (getPlayer (players scenarioState) P2) \<noteq> []"
    by (simp_all add: BOARD_SIZE_def example_defs)
  have v: "hand (getPlayer (players scenarioState) P2)
       ! validIdxOf (hand (getPlayer (players scenarioState) P2)) ''AND'' = OR"
    by code_simp
  have pre: "slotId proposalSlot2 = Some 2 \<and> 0 \<le> (2::int) \<and> 2 < int BOARD_SIZE
      \<and> gate (board scenarioState ! nat 2) = None \<and> gateType proposalSlot2 = Some ''AND''
      \<and> ''AND'' \<noteq> [] \<and> hand (getPlayer (players scenarioState) P2) \<noteq> []"
    using b r by simp
  from place_proposal_resolution [OF t(2) l, of exampleRnd, THEN conjunct2, rule_format,
      of 2 "''AND''", OF pre]
  obtain st' where st': "performAIMove (Some proposalSlot2) exampleRnd scenarioState = Returned st'"
    "gate (board st' ! nat 2) = Some (hand (getPlayer (players scenarioState) P2)
            ! validIdxOf (hand (getPlayer (players scenarioState) P2)) ''AND'')"
    unfolding Let_def by blast
  from st'(1) proposalSlot2_places have "st' = afterSubstitution" by simp
  with st'(2) v have B: "gate (board afterSubstitution ! 2) = Some OR" by simp
  from t l s99 A b proposalSlot2_places B show ?thesis by blast
qed

text \<open>
  The claim as stated fails on its own scenario: for slot 99 the read
  \<^verbatim>\<open>board[99].gate\<close> raises, the \<^verbatim>\<open>catch\<close> block discards, and slot 2 stays empty.
\<close>

theorem slot99_resolves_to_discard_counterexample:
  "hand (getPlayer (players scenarioState) P2) = [OR, XOR, NAND]
   \<and> gate (board scenarioState ! 0) = Some XOR
   \<and> gate (board scenarioState ! 1) = Some AND
   \<and> gate (board scenarioState ! 2) = None
   \<and> performAIMove (Some proposal99) exampleRnd scenarioState = Returned discardedState
   \<and> board discardedState = board scenarioState
   \<and> gate (board discardedState ! 2) = None
   \<and> hand (getPlayer (players discardedState) P2) = [NOR, AND, XOR]"
  using proposal99_discards by (simp add: discardedState_def example_defs)

subsection \<open>The other shapes of a proposal\<close>

text \<open>The remaining shapes of a proposal: no proposal, and the DISCARD tag.\<close>

lemma performAIMove_no_proposal:
  "board st \<noteq> [] \<Longrightarrow>
     performAIMove None rnd st =
       Returned (st\<lparr>players := setHand (players st) P2 [rnd 0, rnd 1, rnd 2],
                    selectedCardIndex := None, turn := P1, isThinking := False\<rparr>)"
  by (simp add: performAIMove_def aiTry_def executeMove_DISCARD)

lemma performAIMove_discard_tag:
  "board st \<noteq> [] \<Longrightarrow> actionType m = ''DISCARD'' \<Longrightarrow>
     performAIMove (Some m) rnd st =
       Returned (st\<lparr>players := setHand (players st) P2 [rnd 0, rnd 1, rnd 2],
                    selectedCardIndex := None, turn := P1, isThinking := False\<rparr>)"
  by (simp add: performAIMove_def aiTry_def executeMove_DISCARD)

text \<open>
  The occupied-slot branch in general: with an empty slot somewhere and a card \<open>c\<close>
  first in P2's hand, \<open>executeMove\<close> is called with the key \<open>Name c\<close>. The gates of the
  board stay as they were, the first card is dropped, a card is drawn, the turn passes.
\<close>

lemma find_Some_iff_ex: "(\<exists>x. find P xs = Some x) \<longleftrightarrow> (\<exists>x \<in> set xs. P x)"
  by (induction xs) auto

lemma performAIMove_occupied_slot:
  assumes tag: "actionType m \<noteq> ''DISCARD''" and len: "length (board st) = BOARD_SIZE"
    and sl: "slotId m = Some i" "0 \<le> i" "i < int BOARD_SIZE"
    and gt: "gateType m = Some s" "s \<noteq> []"
    and occ: "gate (board st ! nat i) \<noteq> None"
    and emp: "\<exists>n \<in> set (board st). gate n = None"
    and hnd: "hand (getPlayer (players st) P2) = c # cs"
  shows "performAIMove (Some m) rnd st =
           Returned (st\<lparr>board := evalLoop BOARD_SIZE (inputs st) (board st),
                        players := setHand (players st) P2 (drawUp cs rnd 0),
                        selectedCardIndex := None, turn := P1, isThinking := False\<rparr>)"
proof -
  let ?st1 = "st\<lparr>isThinking := True\<rparr>"
  let ?r = "evalLoop BOARD_SIZE (inputs st) (board st)"
  have n: "nodeAt (board ?st1) i = Some (board st ! nat i)"
    using len sl by (simp add: nodeAt_in_range)
  obtain e where e: "find (\<lambda>n. gate n = None) (board st) = Some e"
    using emp find_Some_iff_ex [of "\<lambda>n. gate n = None" "board st"] by auto
  have t: "aiTry (Some m) rnd ?st1 = executeMove PLACE P2 (Some (Name c)) (Some c) (Some 0) rnd ?st1"
    using tag sl(1) gt n occ e hnd by (auto simp add: aiTry_def cardAt_def Let_def)
  have l7: "BOARD_SIZE \<le> length (board ?st1)" using len by simp
  have sg: "setGate (board ?st1) (Name c) c = Some (board st)" by (simp add: setGate_def)
  have "\<exists>n \<in> set ?r. gate n = None"
  proof -
    from emp obtain j where j: "j < length (board st)" "gate (board st ! j) = None"
      by (auto simp add: in_set_conv_nth)
    then have "j < length ?r" "gate (?r ! j) = None" by simp_all
    then show ?thesis by (metis nth_mem)
  qed
  then have w: "checkWinCondition ?r = Inr None"
    by (auto simp add: checkWinCondition_def list_all_iff)
  have "executeMove PLACE P2 (Some (Name c)) (Some c) (Some 0) rnd ?st1 =
      Returned (st\<lparr>board := ?r, players := setHand (players st) P2 (drawUp cs rnd 0),
                   selectedCardIndex := None, turn := P1, isThinking := False\<rparr>)"
    using executeMove_PLACE [OF l7 sg, of P2 0 rnd] w hnd by (simp add: splice1_def)
  with t show ?thesis by (simp add: performAIMove_def)
qed

text \<open>
  Claim C2, at the failing input: P2 proposes a placement on the occupied root slot while
  slots 2, 5 and 6 are empty. The fallback branch calls \<open>executeMove\<close> with the first
  card of the hand in the place of the slot: no gate reaches the board, yet the first
  card of the hand is replaced by a drawn one and the turn passes to P1. The turn is
  consumed by something that is neither a placement nor a discard of the hand.
\<close>

theorem occupied_slot_fallback_places_nothing:
  "gate (board scenarioState ! 0) = Some XOR
   \<and> gate (board scenarioState ! 2) = None
   \<and> hand (getPlayer (players scenarioState) P2) = [OR, XOR, NAND]
   \<and> performAIMove (Some proposalOccupied) exampleRnd scenarioState = Returned afterFallback
   \<and> board afterFallback = board scenarioState
   \<and> hand (getPlayer (players afterFallback) P2) = [XOR, NAND, NOR]
   \<and> turn scenarioState = P2 \<and> turn afterFallback = P1"
proof -
  have "performAIMove (Some proposalOccupied) exampleRnd scenarioState = Returned afterFallback"
    by code_simp
  then show ?thesis by (simp add: afterFallback_def example_defs)
qed

section \<open>The human path and the validation policy (C4)\<close>

subsection \<open>The specification's evaluator and win check are the code's\<close>

lemma spec_evalSlot_eq:
  assumes "i < BOARD_SIZE" and "length ins = INITIAL_INPUTS_COUNT"
  shows "spec_evalSlot ins b i = evalSlot ins i b"
proof -
  have "(case gate (b ! i) of
           None \<Rightarrow> None
         | Some g \<Rightarrow>
             (case operandsAt ins b i of
                (Some A, Some B) \<Rightarrow> Some (toBit (specTable g (A = One) (B = One)))
              | _ \<Rightarrow> None)) = slotValue ins b i"
  proof (cases "3 \<le> i")
    case True
    then have k: "(i - 3) * 2 < length ins" "(i - 3) * 2 + 1 < length ins"
      using assms by (simp_all add: BOARD_SIZE_def INITIAL_INPUTS_COUNT_def)
    show ?thesis
      using True k
      by (simp add: slotValue_def operandsAt_def bitAt_def inputAt_def evaluateGate_table
          split: option.splits)
  next
    case False
    then show ?thesis
      by (simp add: slotValue_def operandsAt_def valueOf_def evaluateGate_table
          split: option.splits)
  qed
  then show ?thesis by (simp add: spec_evalSlot_def evalSlot_eq)
qed

lemma fold_spec_evalSlot:
  assumes "length ins = INITIAL_INPUTS_COUNT"
  shows "k \<le> BOARD_SIZE \<Longrightarrow>
    fold (\<lambda>i b'. spec_evalSlot ins b' i) (rev [0..<k]) b = evalLoop k ins b"
proof (induction k arbitrary: b)
  case 0
  then show ?case by simp
next
  case (Suc k)
  then have "k < BOARD_SIZE" by simp
  then have "spec_evalSlot ins b k = evalSlot ins k b"
    using assms by (rule spec_evalSlot_eq)
  then show ?case using Suc by simp
qed

lemma spec_evaluate_eq:
  "length ins = INITIAL_INPUTS_COUNT \<Longrightarrow> spec_evaluate b ins = evalLoop BOARD_SIZE ins b"
  using fold_spec_evalSlot [of ins BOARD_SIZE b]
  by (simp add: spec_evaluate_def BOARD_SIZE_def)

lemma checkWin_spec: "b \<noteq> [] \<Longrightarrow> checkWinCondition b = Inr (spec_checkWin b)"
  by (cases b)
    (auto simp add: checkWinCondition_def spec_checkWin_def split: option.splits Bit.splits)

subsection \<open>The played card\<close>

lemma gateName_inj: "gateName a = gateName b \<Longrightarrow> a = b"
  by (cases a; cases b) simp_all

lemma find_gateName: "c \<in> set h \<Longrightarrow> find (\<lambda>x. gateName x = gateName c) h = Some c"
  by (induction h) (auto dest: gateName_inj)

lemma remove1_indexOf: "indexOf h c = Some k \<Longrightarrow> remove1 c h = splice1 h k"
proof (induction h arbitrary: k)
  case Nil
  then show ?case by simp
next
  case (Cons y ys)
  show ?case
  proof (cases "y = c")
    case True
    with Cons.prems show ?thesis by (simp add: splice1_def)
  next
    case False
    with Cons.prems obtain j where j: "indexOf ys c = Some j" "k = Suc j" by auto
    from Cons.IH [OF j(1)] False j(2) show ?thesis by (simp add: splice1_def)
  qed
qed

lemma spec_hand_absState [simp]: "spec_hand (absState n st) p = hand (getPlayer (players st) p)"
  by (cases p) (simp_all add: absState_def)


subsection \<open>A click on an empty slot\<close>

lemma click_is_executeMove:
  assumes "winner st = None" and "\<not> isThinking st" and "selectedCardIndex st = Some k"
    and "length (board st) = BOARD_SIZE" and "0 \<le> sl" and "sl < int BOARD_SIZE"
    and "gate (board st ! nat sl) = None"
    and "indexOf (hand (getPlayer (players st) (turn st))) c = Some k"
  shows "handleSlotClick sl rnd st =
           executeMove PLACE (turn st) (Some (Index sl)) (Some c) (Some k) rnd st"
proof -
  have n: "nodeAt (board st) sl = Some (board st ! nat sl)"
    using assms(4,5,6) by (simp add: nodeAt_in_range)
  have "cardAt (hand (getPlayer (players st) (turn st))) k = Some c"
    using indexOf_Some [OF assms(8)] by (simp add: cardAt_def)
  then show ?thesis
    using assms(1,2,3,7) n by (simp add: handleSlotClick_def Let_def)
qed

lemma policy_is_placeGate:
  assumes "length (board st) = BOARD_SIZE" and "0 \<le> sl" and "sl < int BOARD_SIZE"
    and "gate (board st ! nat sl) = None"
    and "c \<in> set (hand (getPlayer (players st) (turn st)))"
  shows "spec_MoveValidator
           (Some \<lparr>actionType = ''PLACE'', slotId = Some sl, gateType = Some (gateName c),
                  reasoning = r\<rparr>) rnd (absState n st)
         = spec_placeGate (absState n st) sl c (rnd 0)"
proof -
  have "sl \<le> 6" "nat sl < length (board st)" using assms(1,2,3) by (simp_all add: BOARD_SIZE_def)
  moreover have "find (\<lambda>x. gateName x = gateName c) (spec_hand (absState n st) (turn st)) = Some c"
    using assms(5) by (simp add: find_gateName)
  ultimately show ?thesis
    using assms(2,4) by (simp add: spec_MoveValidator_def Let_def absState_def)
qed

lemma absState_setHand:
  "absState n (st\<lparr>players := setHand (players st) p h\<rparr>) = spec_setHand (absState n st) p h"
  by (cases p) (simp_all add: absState_def)


lemma click_vs_placeGate:
  assumes nw: "winner st = None" and nt: "\<not> isThinking st"
    and sel: "selectedCardIndex st = Some k"
    and lb: "length (board st) = BOARD_SIZE" and li: "length (inputs st) = INITIAL_INPUTS_COUNT"
    and s0: "0 \<le> sl" and s7: "sl < int BOARD_SIZE"
    and em: "gate (board st ! nat sl) = None"
    and l3: "length (hand (getPlayer (players st) (turn st))) = 3"
    and ix: "indexOf (hand (getPlayer (players st) (turn st))) c = Some k"
  shows "\<exists>st'. handleSlotClick sl rnd st = Returned st'
          \<and> (winner st' = None \<longrightarrow>
                spec_placeGate (absState n st) sl c (rnd 0) = Inr (absState (Suc n) st'))
          \<and> (winner st' \<noteq> None \<longrightarrow>
                spec_placeGate (absState n st) sl c (rnd 0)
                  = Inr (spec_setHand (absState n st') (turn st)
                          (remove1 c (hand (getPlayer (players st) (turn st))) @ [rnd 0]))
                \<and> hand (getPlayer (players st') (turn st))
                    = hand (getPlayer (players st) (turn st)))"
proof -
  let ?h = "hand (getPlayer (players st) (turn st))"
  let ?nb = "(board st)[nat sl := (board st ! nat sl)\<lparr>gate := Some c\<rparr>]"
  let ?b = "evalLoop BOARD_SIZE (inputs st) ?nb"
  let ?h' = "remove1 c ?h @ [rnd 0]"
  have kc: "k < length ?h" "?h ! k = c" using indexOf_Some [OF ix] by simp_all
  have cin: "c \<in> set ?h" using kc by (metis nth_mem)
  have i: "nat sl < length (board st)" "sl \<le> 6" using lb s0 s7 by (simp_all add: BOARD_SIZE_def)
  have sg: "setGate (board st) (Index sl) c = Some ?nb"
    using s0 i by (simp add: setGate_def)
  have l7: "BOARD_SIZE \<le> length (board st)" using lb by simp
  have ne: "?b \<noteq> []"
  proof -
    have "length ?b \<noteq> 0" using lb by (auto simp add: BOARD_SIZE_def)
    then show ?thesis by (simp del: length_evalLoop)
  qed
  have cw: "checkWinCondition ?b = Inr (spec_checkWin ?b)" using ne by (rule checkWin_spec)
  have dr: "drawUp (splice1 ?h k) rnd 0 = ?h'"
    using kc(1) l3 by (simp add: drawUp_two length_splice1 remove1_indexOf [OF ix])
  have click: "handleSlotClick sl rnd st =
      executeMove PLACE (turn st) (Some (Index sl)) (Some c) (Some k) rnd st"
    using nw nt sel lb s0 s7 em ix by (rule click_is_executeMove)
  have se: "spec_evaluate ?nb (inputs st) = ?b" using li by (rule spec_evaluate_eq)
  have pre: "\<not> (gs_winner (absState n st) \<noteq> None \<or> \<not> (0 \<le> sl \<and> sl \<le> 6)
         \<or> \<not> nat sl < length (gs_board (absState n st))
         \<or> gate (gs_board (absState n st) ! nat sl) \<noteq> None
         \<or> c \<notin> set (spec_hand (absState n st) (currentPlayer (absState n st))))"
    using nw s0 i em cin by (cases "turn st") (simp_all add: absState_def)
  have sp: "spec_placeGate (absState n st) sl c (rnd 0) =
      (case spec_checkWin ?b of
         Some w \<Rightarrow> Inr ((spec_setHand ((absState n st)\<lparr>gs_board := ?b\<rparr>) (turn st) ?h')
                          \<lparr>gs_winner := Some w\<rparr>)
       | None \<Rightarrow> Inr ((spec_setHand ((absState n st)\<lparr>gs_board := ?b\<rparr>) (turn st) ?h')
                          \<lparr>currentPlayer := otherPlayer (turn st), turnCount := Suc n\<rparr>))"
    unfolding spec_placeGate_def if_not_P [OF pre]
    using se by (cases "turn st"; cases "spec_checkWin ?b") (simp_all add: Let_def absState_def)
  show ?thesis
  proof (cases "spec_checkWin ?b")
    case None
    let ?st' = "st\<lparr>board := ?b, players := setHand (players st) (turn st) ?h',
                   selectedCardIndex := None, turn := otherPlayer (turn st),
                   isThinking := False\<rparr>"
    have r: "handleSlotClick sl rnd st = Returned ?st'"
      using click executeMove_PLACE [OF l7 sg, of "turn st" k rnd] cw None dr by simp
    have w: "winner ?st' = None" using nw by simp
    have "spec_placeGate (absState n st) sl c (rnd 0) = Inr (absState (Suc n) ?st')"
      using sp None by (cases "turn st") (simp_all add: absState_def)
    with r w show ?thesis by (intro exI [of _ ?st']) simp
  next
    case (Some w)
    let ?st' = "st\<lparr>board := ?b, winner := Some w, isThinking := False\<rparr>"
    have r: "handleSlotClick sl rnd st = Returned ?st'"
      using click executeMove_PLACE [OF l7 sg, of "turn st" k rnd] cw Some by simp
    have w': "winner ?st' \<noteq> None" by simp
    have "spec_placeGate (absState n st) sl c (rnd 0)
        = Inr (spec_setHand (absState n ?st') (turn st) ?h')"
      using sp Some by (cases "turn st") (simp_all add: absState_def)
    moreover have "hand (getPlayer (players ?st') (turn st)) = ?h" by simp
    ultimately show ?thesis using r w' by (intro exI [of _ ?st']) simp
  qed
qed

text \<open>
  Claim C4, amended. The human path does not go through the repair policy. For a click
  on an empty slot in [0,6], with a card selected that is the first of its kind in a
  hand of three, the handler returns; when the placement does not end the game, board,
  hands, current player and winner are those that the policy of section 4.3, with
  \<open>placeGate\<close> of section 4.2, yields for the proposal (PLACE, that slot, that card),
  and one turn is counted; when it ends the game, board, winner and current player are
  the policy's, but the handler leaves the hand as it was where \<open>placeGate\<close> replaces
  the played card. A click on an occupied slot is not repaired to the first empty
  slot: the state stays as it is.
\<close>

theorem human_click_vs_policy:
  "(winner st = None \<and> \<not> isThinking st \<and> selectedCardIndex st = Some k
      \<and> length (board st) = BOARD_SIZE \<and> length (inputs st) = INITIAL_INPUTS_COUNT
      \<and> 0 \<le> sl \<and> sl < int BOARD_SIZE \<and> gate (board st ! nat sl) = None
      \<and> length (hand (getPlayer (players st) (turn st))) = 3
      \<and> indexOf (hand (getPlayer (players st) (turn st))) c = Some k \<longrightarrow>
    (\<exists>st'. handleSlotClick sl rnd st = Returned st'
       \<and> (winner st' = None \<longrightarrow>
             spec_MoveValidator
               (Some \<lparr>actionType = ''PLACE'', slotId = Some sl, gateType = Some (gateName c),
                      reasoning = r\<rparr>) rnd (absState n st)
             = Inr (absState (Suc n) st'))
       \<and> (winner st' \<noteq> None \<longrightarrow>
             spec_MoveValidator
               (Some \<lparr>actionType = ''PLACE'', slotId = Some sl, gateType = Some (gateName c),
                      reasoning = r\<rparr>) rnd (absState n st)
             = Inr (spec_setHand (absState n st') (turn st)
                     (remove1 c (hand (getPlayer (players st) (turn st))) @ [rnd 0]))
             \<and> hand (getPlayer (players st') (turn st))
                 = hand (getPlayer (players st) (turn st)))))
   \<and> (length (board st) = BOARD_SIZE \<and> 0 \<le> sl \<and> sl < int BOARD_SIZE
      \<and> gate (board st ! nat sl) \<noteq> None \<longrightarrow>
    handleSlotClick sl rnd st = Returned st)"
proof (intro conjI impI)
  assume a: "winner st = None \<and> \<not> isThinking st \<and> selectedCardIndex st = Some k
      \<and> length (board st) = BOARD_SIZE \<and> length (inputs st) = INITIAL_INPUTS_COUNT
      \<and> 0 \<le> sl \<and> sl < int BOARD_SIZE \<and> gate (board st ! nat sl) = None
      \<and> length (hand (getPlayer (players st) (turn st))) = 3
      \<and> indexOf (hand (getPlayer (players st) (turn st))) c = Some k"
  then have a': "winner st = None" "\<not> isThinking st" "selectedCardIndex st = Some k"
    "length (board st) = BOARD_SIZE" "length (inputs st) = INITIAL_INPUTS_COUNT"
    "0 \<le> sl" "sl < int BOARD_SIZE" "gate (board st ! nat sl) = None"
    "length (hand (getPlayer (players st) (turn st))) = 3"
    "indexOf (hand (getPlayer (players st) (turn st))) c = Some k"
    by simp_all
  have "c \<in> set (hand (getPlayer (players st) (turn st)))"
    using indexOf_Some [OF a'(10)] by (metis nth_mem)
  then have p: "spec_MoveValidator
           (Some \<lparr>actionType = ''PLACE'', slotId = Some sl, gateType = Some (gateName c),
                  reasoning = r\<rparr>) rnd (absState n st)
         = spec_placeGate (absState n st) sl c (rnd 0)"
    using a'(4,6,7,8) by (intro policy_is_placeGate)
  show "\<exists>st'. handleSlotClick sl rnd st = Returned st'
       \<and> (winner st' = None \<longrightarrow>
             spec_MoveValidator
               (Some \<lparr>actionType = ''PLACE'', slotId = Some sl, gateType = Some (gateName c),
                      reasoning = r\<rparr>) rnd (absState n st)
             = Inr (absState (Suc n) st'))
       \<and> (winner st' \<noteq> None \<longrightarrow>
             spec_MoveValidator
               (Some \<lparr>actionType = ''PLACE'', slotId = Some sl, gateType = Some (gateName c),
                      reasoning = r\<rparr>) rnd (absState n st)
             = Inr (spec_setHand (absState n st') (turn st)
                     (remove1 c (hand (getPlayer (players st) (turn st))) @ [rnd 0]))
             \<and> hand (getPlayer (players st') (turn st))
                 = hand (getPlayer (players st) (turn st)))"
    unfolding p by (rule click_vs_placeGate [OF a'])
next
  assume a: "length (board st) = BOARD_SIZE \<and> 0 \<le> sl \<and> sl < int BOARD_SIZE
      \<and> gate (board st ! nat sl) \<noteq> None"
  then have "nodeAt (board st) sl = Some (board st ! nat sl)"
    by (simp add: nodeAt_in_range)
  with a show "handleSlotClick sl rnd st = Returned st"
    by (auto simp add: handleSlotClick_def split: option.splits)
qed


lemma human_click_empty:
  "handleSlotClick 2 exampleRnd humanState = Returned afterHumanMove"
  by code_simp

lemma human_click_wins:
  "handleSlotClick 2 exampleRnd humanLastSlotState = Returned humanWonState"
  by code_simp

lemma human_click_occupied:
  "handleSlotClick 0 exampleRnd humanState = Returned humanState"
  by code_simp

lemma policy_repairs_occupied:
  "spec_MoveValidator (Some proposalHuman) exampleRnd (absState 0 humanState)
     = Inr (absState 1 afterHumanMove)"
  by code_simp

theorem human_click_vs_policy_witness:
  "handleSlotClick 2 exampleRnd humanState = Returned afterHumanMove
   \<and> winner afterHumanMove = None
   \<and> spec_MoveValidator (Some proposalClick) exampleRnd (absState 0 humanState)
       = Inr (absState 1 afterHumanMove)
   \<and> handleSlotClick 2 exampleRnd humanLastSlotState = Returned humanWonState
   \<and> winner humanWonState = Some (Won P1)
   \<and> spec_MoveValidator (Some proposalClick) exampleRnd (absState 0 humanLastSlotState)
       = Inr (spec_setHand (absState 0 humanWonState) P1 [AND, AND, NOR])
   \<and> hand (getPlayer (players humanWonState) P1) = [AND, NOR, AND]
   \<and> gate (board humanState ! 0) = Some XOR
   \<and> handleSlotClick 0 exampleRnd humanState = Returned humanState"
proof -
  have a: "winner humanState = None \<and> \<not> isThinking humanState
      \<and> selectedCardIndex humanState = Some 1
      \<and> length (board humanState) = BOARD_SIZE
      \<and> length (inputs humanState) = INITIAL_INPUTS_COUNT
      \<and> (0::int) \<le> 2 \<and> 2 < int BOARD_SIZE \<and> gate (board humanState ! nat 2) = None
      \<and> length (hand (getPlayer (players humanState) (turn humanState))) = 3
      \<and> indexOf (hand (getPlayer (players humanState) (turn humanState))) NOR = Some 1"
    by code_simp
  have b: "winner humanLastSlotState = None \<and> \<not> isThinking humanLastSlotState
      \<and> selectedCardIndex humanLastSlotState = Some 1
      \<and> length (board humanLastSlotState) = BOARD_SIZE
      \<and> length (inputs humanLastSlotState) = INITIAL_INPUTS_COUNT
      \<and> (0::int) \<le> 2 \<and> 2 < int BOARD_SIZE
      \<and> gate (board humanLastSlotState ! nat 2) = None
      \<and> length (hand (getPlayer (players humanLastSlotState) (turn humanLastSlotState))) = 3
      \<and> indexOf (hand (getPlayer (players humanLastSlotState) (turn humanLastSlotState))) NOR
          = Some 1"
    by code_simp
  have c: "length (board humanState) = BOARD_SIZE \<and> (0::int) \<le> 0 \<and> 0 < int BOARD_SIZE
      \<and> gate (board humanState ! nat 0) \<noteq> None"
    by code_simp
  have p: "proposalClick = \<lparr>actionType = ''PLACE'', slotId = Some 2,
      gateType = Some (gateName NOR), reasoning = None\<rparr>"
    by (simp add: proposalClick_def)
  have w: "winner afterHumanMove = None" "winner humanWonState = Some (Won P1)"
    "turn humanLastSlotState = P1"
    "hand (getPlayer (players humanLastSlotState) P1) = [AND, NOR, AND]"
    "exampleRnd 0 = NOR" "gate (board humanState ! 0) = Some XOR"
    by code_simp+
  from human_click_vs_policy
         [where st = humanState and k = 1 and sl = 2 and c = NOR and rnd = exampleRnd
            and r = None and n = 0, THEN conjunct1, rule_format, OF a]
  have 1: "spec_MoveValidator (Some proposalClick) exampleRnd (absState 0 humanState)
      = Inr (absState 1 afterHumanMove)"
    unfolding human_click_empty p using w(1) by auto
  from human_click_vs_policy
         [where st = humanLastSlotState and k = 1 and sl = 2 and c = NOR
            and rnd = exampleRnd and r = None and n = 0, THEN conjunct1, rule_format, OF b]
  have 2: "spec_MoveValidator (Some proposalClick) exampleRnd (absState 0 humanLastSlotState)
        = Inr (spec_setHand (absState 0 humanWonState) P1 [AND, AND, NOR])
      \<and> hand (getPlayer (players humanWonState) P1) = [AND, NOR, AND]"
    unfolding human_click_wins p using w(2-5) by auto
  from human_click_vs_policy
         [where st = humanState and sl = 0 and rnd = exampleRnd, THEN conjunct2,
            rule_format, OF c]
  have 3: "handleSlotClick 0 exampleRnd humanState = Returned humanState" .
  from 1 2 3 w human_click_empty human_click_wins show ?thesis by simp
qed

text \<open>
  The claim as stated fails: a click on the occupied root slot leaves the state as it
  is, where the policy places the selected NOR on slot 2, the first empty slot,
  replaces the card and passes the turn.
\<close>

theorem human_click_on_occupied_slot_counterexample:
  "winner humanState = None \<and> \<not> isThinking humanState
   \<and> selectedCardIndex humanState = Some 1
   \<and> hand (getPlayer (players humanState) (turn humanState)) ! 1 = NOR
   \<and> gate (board humanState ! 0) = Some XOR
   \<and> gate (board humanState ! 1) = Some AND
   \<and> gate (board humanState ! 2) = None
   \<and> handleSlotClick 0 exampleRnd humanState = Returned humanState
   \<and> spec_MoveValidator (Some proposalHuman) exampleRnd (absState 0 humanState)
       = Inr (absState 1 afterHumanMove)
   \<and> gate (gs_board (absState 1 afterHumanMove) ! 2) = Some NOR
   \<and> gs_handP1 (absState 1 afterHumanMove) = [AND, AND, NOR]
   \<and> currentPlayer (absState 1 afterHumanMove) = P2
   \<and> gate (gs_board (absState 0 humanState) ! 2) = None
   \<and> gs_handP1 (absState 0 humanState) = [AND, NOR, AND]
   \<and> currentPlayer (absState 0 humanState) = P1"
  by code_simp

end
